theory Spec2Isabelle
  imports Main "HOL-Library.AList"
begin

section \<open>Values of the program\<close>

text \<open>
  The program \<^verbatim>\<open>fmp-openai.py\<close> moves JSON documents around: the instrument list read by
  \<^verbatim>\<open>json.load\<close>, the bodies returned by \<^verbatim>\<open>response.json()\<close> and the bodies it posts.
  A Python value obtained from JSON is modelled by the datatype below. \<open>JNull\<close> is Python's
  \<^verbatim>\<open>None\<close>: \<^verbatim>\<open>json\<close> maps \<^verbatim>\<open>null\<close> to \<^verbatim>\<open>None\<close>, and the functions of the program return
  \<^verbatim>\<open>None\<close> for "no data". A \<^verbatim>\<open>dict\<close> is an association list in insertion order, the
  order Python iterates in. Numbers are integers; floating-point numbers are not modelled.

  Text is an Isabelle \<open>string\<close>, each \<open>char\<close> read as one code point below 256.
\<close>

datatype json =
    JNull
  | JBool bool
  | JNum int
  | JStr string
  | JArr "json list"
  | JObj "(string \<times> json) list"

text \<open>
  The exceptions of the program. Python raises \<^verbatim>\<open>ValueError\<close> at three places, which are
  kept apart here: \<open>UnsupportedMethod\<close> (\<^verbatim>\<open>send_request\<close>), \<open>InvalidBackend\<close> (the
  \<^verbatim>\<open>rewrite_api\<close> check of \<^verbatim>\<open>main\<close>) and \<open>ExtraFields\<close> (\<^verbatim>\<open>csv.DictWriter.writerow\<close> on a
  row with a key outside \<^verbatim>\<open>fieldnames\<close>). \<open>BulkListError\<close> is any exception of
  \<^verbatim>\<open>requests.get\<close> or \<^verbatim>\<open>response.json()\<close> in \<^verbatim>\<open>get_available_traded\<close>, \<open>InputFileError\<close>
  any exception of opening or parsing \<^verbatim>\<open>list-test.json\<close>.
\<close>

datatype error =
    KeyError
  | IndexError
  | TypeError
  | AttributeError
  | UnsupportedMethod
  | InvalidBackend
  | ExtraFields
  | BulkListError
  | InputFileError

subsection \<open>Strings\<close>

text \<open>
  \<^verbatim>\<open>str.lower\<close> and \<^verbatim>\<open>str.upper\<close>. The program only compares their results with the
  constants \<^verbatim>\<open>'stock'\<close>, \<^verbatim>\<open>'etf'\<close>, \<^verbatim>\<open>'openai'\<close>, \<^verbatim>\<open>'coze'\<close>, \<^verbatim>\<open>'GET'\<close> and \<^verbatim>\<open>'POST'\<close>, so
  the conversion of the 26 letters decides every comparison. Below code point 256,
  \<^verbatim>\<open>lower\<close> maps no other character to one of these letters, and \<^verbatim>\<open>upper\<close> does so only
  for code point 223, which it maps to \<^verbatim>\<open>SS\<close>, a pair that occurs in neither \<^verbatim>\<open>'GET'\<close>
  nor \<^verbatim>\<open>'POST'\<close>.
\<close>

definition upper_letters :: string where
  "upper_letters = ''ABCDEFGHIJKLMNOPQRSTUVWXYZ''"

definition lower_letters :: string where
  "lower_letters = ''abcdefghijklmnopqrstuvwxyz''"

definition py_lower_char :: "char \<Rightarrow> char" where
  "py_lower_char c =
     (case map_of (zip upper_letters lower_letters) c of Some d \<Rightarrow> d | None \<Rightarrow> c)"

definition py_upper_char :: "char \<Rightarrow> char" where
  "py_upper_char c =
     (case map_of (zip lower_letters upper_letters) c of Some d \<Rightarrow> d | None \<Rightarrow> c)"

definition py_lower :: "string \<Rightarrow> string" where
  "py_lower s = map py_lower_char s"

definition py_upper :: "string \<Rightarrow> string" where
  "py_upper s = map py_upper_char s"

text \<open>
  \<^verbatim>\<open>str.strip()\<close> removes the characters for which \<^verbatim>\<open>str.isspace\<close> holds from both ends:
  below 256 these are the code points 9 to 13, 28 to 32, 133 and 160.
\<close>

definition whitespace :: string where
  "whitespace =
     [CHR 0x09, CHR 0x0A, CHR 0x0B, CHR 0x0C, CHR 0x0D, CHR 0x1C, CHR 0x1D, CHR 0x1E,
      CHR 0x1F, CHR 0x20, CHR 0x85, CHR 0xA0]"

definition py_isspace :: "char \<Rightarrow> bool" where
  "py_isspace c = (c \<in> set whitespace)"

definition py_strip :: "string \<Rightarrow> string" where
  "py_strip s = rev (dropWhile py_isspace (rev (dropWhile py_isspace s)))"

text \<open>\<^verbatim>\<open>str(n)\<close> for an integer, used when a symbol is formatted into a URL.\<close>

fun string_of_nat :: "nat \<Rightarrow> string" where
  "string_of_nat n =
     (if n < 10 then [''0123456789'' ! n]
      else string_of_nat (n div 10) @ [''0123456789'' ! (n mod 10)])"

definition string_of_int :: "int \<Rightarrow> string" where
  "string_of_int i = (if i < 0 then CHR ''-'' # string_of_nat (nat (- i)) else string_of_nat (nat i))"

subsection \<open>Subscripts and methods on JSON values\<close>

text \<open>
  \<^verbatim>\<open>v[k]\<close> with a string \<open>k\<close>: only a \<^verbatim>\<open>dict\<close> can answer; a list or a string raises
  \<^verbatim>\<open>TypeError\<close> (indices must be integers), the other values are not subscriptable.
\<close>

fun py_getitem :: "json \<Rightarrow> string \<Rightarrow> error + json" where
  "py_getitem (JObj kvs) k = (case map_of kvs k of Some v \<Rightarrow> Inr v | None \<Rightarrow> Inl KeyError)"
| "py_getitem _ k = Inl TypeError"

text \<open>
  \<^verbatim>\<open>v[0]\<close>: the first element of a list, the first character of a string, \<^verbatim>\<open>IndexError\<close>
  when they are empty; a \<^verbatim>\<open>dict\<close> from JSON has string keys only, so the key \<open>0\<close> is missing.
\<close>

fun py_first :: "json \<Rightarrow> error + json" where
  "py_first (JArr []) = Inl IndexError"
| "py_first (JArr (x # xs)) = Inr x"
| "py_first (JStr []) = Inl IndexError"
| "py_first (JStr (c # cs)) = Inr (JStr [c])"
| "py_first (JObj kvs) = Inl KeyError"
| "py_first _ = Inl TypeError"

text \<open>\<^verbatim>\<open>v.lower()\<close> and \<^verbatim>\<open>v.strip()\<close>: only strings have these methods.\<close>

fun lower_method :: "json \<Rightarrow> error + string" where
  "lower_method (JStr s) = Inr (py_lower s)"
| "lower_method _ = Inl AttributeError"

fun strip_method :: "json \<Rightarrow> error + json" where
  "strip_method (JStr s) = Inr (JStr (py_strip s))"
| "strip_method _ = Inl AttributeError"

text \<open>\<^verbatim>\<open>v + s\<close> for a string \<open>s\<close>: concatenation when \<open>v\<close> is a string, \<^verbatim>\<open>TypeError\<close> otherwise.\<close>

fun py_concat :: "json \<Rightarrow> string \<Rightarrow> error + string" where
  "py_concat (JStr d) s = Inr (d @ s)"
| "py_concat _ s = Inl TypeError"

text \<open>
  \<^verbatim>\<open>item.update(fields)\<close>: existing keys are overwritten in place, new keys are appended in
  the order of \<open>fields\<close>; only a \<^verbatim>\<open>dict\<close> has the method.
\<close>

definition dict_update :: "(string \<times> json) list \<Rightarrow> (string \<times> json) list \<Rightarrow> (string \<times> json) list" where
  "dict_update fields kvs = fold (\<lambda>(k, v). AList.update k v) fields kvs"

fun update_method :: "json \<Rightarrow> (string \<times> json) list \<Rightarrow> error + json" where
  "update_method (JObj kvs) fields = Inr (JObj (dict_update fields kvs))"
| "update_method _ fields = Inl AttributeError"

text \<open>
  \<^verbatim>\<open>for item in data\<close>: a list gives its elements, a \<^verbatim>\<open>dict\<close> its keys, a string its
  characters; nothing else is iterable.
\<close>

fun py_iter :: "json \<Rightarrow> error + json list" where
  "py_iter (JArr xs) = Inr xs"
| "py_iter (JObj kvs) = Inr (map (\<lambda>(k, v). JStr k) kvs)"
| "py_iter (JStr s) = Inr (map (\<lambda>c. JStr [c]) s)"
| "py_iter _ = Inl TypeError"

section \<open>The request executor\<close>

text \<open>
  A request as handed to \<^verbatim>\<open>session.get\<close> or \<^verbatim>\<open>session.post\<close>. What the network does with
  it is an \<open>outcome\<close>: a response with a status and a body that \<^verbatim>\<open>response.json()\<close> either
  parses or rejects, or an exception raised while the request is sent or the response is
  read. The \<open>session\<close> argument of each function is the behaviour of the network for the
  call at hand.
\<close>

datatype verb = GET | POST

record request =
  verb :: verb
  url :: string
  headers :: "(string \<times> string) list"
  body :: json

datatype payload = Parsed json | Malformed

datatype outcome = Response nat payload | Failed

type_synonym session = "request \<Rightarrow> outcome"

text \<open>
  The body of the \<^verbatim>\<open>try\<close> block of \<^verbatim>\<open>send_request\<close> with its handler: the parsed body on
  status 200, \<^verbatim>\<open>None\<close> on another status, \<^verbatim>\<open>None\<close> when anything was raised.
\<close>

fun receive :: "outcome \<Rightarrow> json" where
  "receive (Response status (Parsed j)) = (if status = 200 then j else JNull)"
| "receive (Response status Malformed) = JNull"
| "receive Failed = JNull"

text \<open>
  \<^verbatim>\<open>send_request\<close> returns the requests it has issued (none or one) and its result: the
  value returned, or \<open>UnsupportedMethod\<close> raised before anything is sent.
\<close>

definition send_request ::
  "session \<Rightarrow> string \<Rightarrow> string \<Rightarrow> (string \<times> string) list \<Rightarrow> json \<Rightarrow> request list \<times> (error + json)" where
  "send_request session method u hs json_data =
     (if py_upper method = ''GET'' then
        (let req = \<lparr>verb = GET, url = u, headers = hs, body = json_data\<rparr>
         in ([req], Inr (receive (session req))))
      else if py_upper method = ''POST'' then
        (let req = \<lparr>verb = POST, url = u, headers = hs, body = json_data\<rparr>
         in ([req], Inr (receive (session req))))
      else ([], Inl UnsupportedMethod))"

section \<open>The pipeline up to the enriched collection\<close>

subsection \<open>Candidate filter\<close>

text \<open>
  The condition of the list comprehension of \<^verbatim>\<open>main\<close>:
  \<^verbatim>\<open>item['type'].lower() in ['stock', 'etf'] and item['exchangeShortName'] in ['AMEX', 'NASDAQ']\<close>.
  Python's \<^verbatim>\<open>and\<close> does not evaluate its right operand when the left one is false. A
  value from JSON equals a string constant only if it is that string.
\<close>

definition is_candidate :: "json \<Rightarrow> error + bool" where
  "is_candidate item =
     (case py_getitem item ''type'' of
        Inl e \<Rightarrow> Inl e
      | Inr t \<Rightarrow>
          (case lower_method t of
             Inl e \<Rightarrow> Inl e
           | Inr lowered \<Rightarrow>
               if lowered \<in> set [''stock'', ''etf''] then
                 (case py_getitem item ''exchangeShortName'' of
                    Inl e \<Rightarrow> Inl e
                  | Inr x \<Rightarrow> Inr (x \<in> set [JStr ''AMEX'', JStr ''NASDAQ'']))
               else Inr False))"

text \<open>The comprehension itself: the first exception ends it.\<close>

fun filtered_data :: "json list \<Rightarrow> error + json list" where
  "filtered_data [] = Inr []"
| "filtered_data (item # rest) =
     (case is_candidate item of
        Inl e \<Rightarrow> Inl e
      | Inr keep \<Rightarrow>
          (case filtered_data rest of
             Inl e \<Rightarrow> Inl e
           | Inr out \<Rightarrow> Inr (if keep then item # out else out)))"

subsection \<open>The record collection\<close>

text \<open>
  The keys of \<^verbatim>\<open>data_map\<close> are the \<^verbatim>\<open>symbol\<close> values of the items. A list or a
  \<^verbatim>\<open>dict\<close> is not hashable and raises \<^verbatim>\<open>TypeError\<close>; the other values are keys. Python
  compares keys with \<^verbatim>\<open>==\<close>, for which \<^verbatim>\<open>True == 1\<close> and \<^verbatim>\<open>False == 0\<close>.
\<close>

datatype key = KNone | KBool bool | KInt int | KStr string

fun as_key :: "json \<Rightarrow> error + key" where
  "as_key JNull = Inr KNone"
| "as_key (JBool b) = Inr (KBool b)"
| "as_key (JNum n) = Inr (KInt n)"
| "as_key (JStr s) = Inr (KStr s)"
| "as_key (JArr xs) = Inl TypeError"
| "as_key (JObj kvs) = Inl TypeError"

fun key_value :: "key \<Rightarrow> key" where
  "key_value (KBool b) = KInt (if b then 1 else 0)"
| "key_value k = k"

definition py_eq :: "key \<Rightarrow> key \<Rightarrow> bool" where
  "py_eq a b = (key_value a = key_value b)"

text \<open>\<^verbatim>\<open>str(symbol)\<close>, as the f-string of \<^verbatim>\<open>get_profile_data\<close> formats it.\<close>

fun py_str :: "key \<Rightarrow> string" where
  "py_str KNone = ''None''"
| "py_str (KBool b) = (if b then ''True'' else ''False'')"
| "py_str (KInt n) = string_of_int n"
| "py_str (KStr s) = s"

text \<open>
  \<^verbatim>\<open>d[k] = v\<close> keeps the position and the key object of an entry with an equal key and
  appends otherwise; \<^verbatim>\<open>d[k]\<close> finds the entry with an equal key.
\<close>

fun dict_set :: "key \<Rightarrow> 'v \<Rightarrow> (key \<times> 'v) list \<Rightarrow> (key \<times> 'v) list" where
  "dict_set k v [] = [(k, v)]"
| "dict_set k v ((k', v') # rest) =
     (if py_eq k' k then (k', v) # rest else (k', v') # dict_set k v rest)"

fun dict_get :: "(key \<times> 'v) list \<Rightarrow> key \<Rightarrow> 'v option" where
  "dict_get [] k = None"
| "dict_get ((k', v') # rest) k = (if py_eq k' k then Some v' else dict_get rest k)"

text \<open>\<^verbatim>\<open>{item['symbol']: item for item in filtered_data}\<close>, entry after entry.\<close>

fun data_map_of :: "json list \<Rightarrow> (key \<times> json) list \<Rightarrow> error + (key \<times> json) list" where
  "data_map_of [] m = Inr m"
| "data_map_of (item # rest) m =
     (case py_getitem item ''symbol'' of
        Inl e \<Rightarrow> Inl e
      | Inr s \<Rightarrow>
          (case as_key s of
             Inl e \<Rightarrow> Inl e
           | Inr k \<Rightarrow> data_map_of rest (dict_set k item m)))"

subsection \<open>Profile enricher\<close>

definition get_profile_data ::
  "session \<Rightarrow> string \<Rightarrow> string \<Rightarrow> key \<Rightarrow> request list \<times> (error + json \<times> key)" where
  "get_profile_data session api_url api_key symbol =
     (let u = api_url @ py_str symbol @ ''?apikey='' @ api_key;
          (reqs, r) = send_request session ''GET'' u [] JNull
      in (reqs, case r of Inl e \<Rightarrow> Inl e | Inr profile_data \<Rightarrow> Inr (profile_data, symbol)))"

text \<open>
  The \<^verbatim>\<open>dict\<close> literal passed to \<^verbatim>\<open>item.update\<close>: for each field in turn,
  \<^verbatim>\<open>profile_data[0][field]\<close>. Python builds the whole literal before it calls \<^verbatim>\<open>update\<close>,
  so an exception leaves the item as it was.
\<close>

definition profile_fields :: "string list" where
  "profile_fields = [''currency'', ''industry'', ''sector'', ''country'', ''image'', ''description'']"

fun profile_literal :: "json \<Rightarrow> string list \<Rightarrow> error + (string \<times> json) list" where
  "profile_literal profile_data [] = Inr []"
| "profile_literal profile_data (f # fs) =
     (case py_first profile_data of
        Inl e \<Rightarrow> Inl e
      | Inr p \<Rightarrow>
          (case py_getitem p f of
             Inl e \<Rightarrow> Inl e
           | Inr v \<Rightarrow>
               (case profile_literal profile_data fs of
                  Inl e \<Rightarrow> Inl e
                | Inr rest \<Rightarrow> Inr ((f, v) # rest))))"

text \<open>
  The body of the \<^verbatim>\<open>as_completed\<close> loop for one completed task. The item is mutated in
  place, which the model writes back under its key.
\<close>

definition merge_profile :: "(key \<times> json) list \<Rightarrow> json \<Rightarrow> key \<Rightarrow> error + (key \<times> json) list" where
  "merge_profile data_map profile_data symbol =
     (if profile_data \<noteq> JNull then
        (case dict_get data_map symbol of
           None \<Rightarrow> Inl KeyError
         | Some item \<Rightarrow>
             (case profile_literal profile_data profile_fields of
                Inl e \<Rightarrow> Inl e
              | Inr literal \<Rightarrow>
                  (case update_method item literal of
                     Inl e \<Rightarrow> Inl e
                   | Inr item' \<Rightarrow> Inr (dict_set symbol item' data_map))))
      else Inr data_map)"

text \<open>
  \<^verbatim>\<open>asyncio.as_completed\<close> starts the tasks in the iteration order of a \<^verbatim>\<open>set\<close> and
  yields them as they finish. Both orders are chosen by the environment, here by a list
  of picks: each pick takes one of the tasks still left. Every list of picks gives an
  order of all the tasks, and every order is given by some list of picks.
\<close>

fun permute :: "nat list \<Rightarrow> 'a list \<Rightarrow> 'a list" where
  "permute [] xs = xs"
| "permute (p # ps) xs =
     (if xs = [] then []
      else (let i = p mod length xs in xs ! i # permute ps (take i xs @ drop (Suc i) xs)))"

text \<open>The loop over the completed tasks; \<open>task\<close> is what awaiting each of them gives.\<close>

fun consume ::
  "(key \<Rightarrow> error + json \<times> key) \<Rightarrow> key list \<Rightarrow> (key \<times> json) list \<Rightarrow> error + (key \<times> json) list" where
  "consume task [] data_map = Inr data_map"
| "consume task (t # ts) data_map =
     (case task t of
        Inl e \<Rightarrow> Inl e
      | Inr (profile_data, symbol) \<Rightarrow>
          (case merge_profile data_map profile_data symbol of
             Inl e \<Rightarrow> Inl e
           | Inr data_map' \<Rightarrow> consume task ts data_map'))"

text \<open>
  \<^verbatim>\<open>update_with_profile\<close>. The function opens a session of its own, which hides the one
  it is given; \<open>net symbol\<close> is the behaviour of the network for the task of \<open>symbol\<close>.
  Every task calls \<^verbatim>\<open>session.get\<close> when it is started, which is before the first
  completion is handled, so the requests issued are those of all the tasks, in starting
  order, also when the loop raises.
\<close>

definition update_with_profile ::
  "(key \<Rightarrow> session) \<Rightarrow> nat list \<Rightarrow> nat list \<Rightarrow> json list \<Rightarrow> string \<Rightarrow> string
     \<Rightarrow> request list \<times> (error + json list)" where
  "update_with_profile net started completed items api_url api_key =
     (case data_map_of items [] of
        Inl e \<Rightarrow> ([], Inl e)
      | Inr data_map \<Rightarrow>
          (let tasks = map fst data_map;
               task = (\<lambda>symbol. get_profile_data (net symbol) api_url api_key symbol)
           in (concat (map (\<lambda>symbol. fst (task symbol)) (permute started tasks)),
               case consume (\<lambda>symbol. snd (task symbol)) (permute completed tasks) data_map of
                 Inl e \<Rightarrow> Inl e
               | Inr data_map' \<Rightarrow> Inr (map snd data_map'))))"

section \<open>The description rewriters\<close>

text \<open>
  Both rewriters post one request and read the answer inside \<^verbatim>\<open>try ... except Exception\<close>,
  which turns every exception of the subscripts and of \<^verbatim>\<open>strip\<close> into \<^verbatim>\<open>None\<close>.
\<close>

definition rewrite_with_coze ::
  "session \<Rightarrow> string \<Rightarrow> string \<Rightarrow> string \<Rightarrow> string \<Rightarrow> request list \<times> (error + json)" where
  "rewrite_with_coze session access_token user_id bot_id text =
     (let hs = [(''Authorization'', ''Bearer '' @ access_token),
                (''Content-Type'', ''application/json'')];
          u = ''https://api.coze.com/open_api/v2/chat'';
          json_data = JObj [(''conversation_id'', JStr ''123''), (''bot_id'', JStr bot_id),
                            (''user'', JStr user_id), (''query'', JStr text),
                            (''stream'', JBool False)];
          (reqs, r) = send_request session ''POST'' u hs json_data
      in (reqs,
          case r of
            Inl e \<Rightarrow> Inl e
          | Inr res_json \<Rightarrow>
              Inr (if res_json \<noteq> JNull then
                     (case py_getitem res_json ''messages'' of
                        Inl e \<Rightarrow> JNull
                      | Inr messages \<Rightarrow>
                          (case py_first messages of
                             Inl e \<Rightarrow> JNull
                           | Inr message \<Rightarrow>
                               (case py_getitem message ''content'' of
                                  Inl e \<Rightarrow> JNull
                                | Inr content \<Rightarrow> content)))
                   else JNull)))"

definition rewrite_with_openai ::
  "session \<Rightarrow> string \<Rightarrow> string \<Rightarrow> request list \<times> (error + json)" where
  "rewrite_with_openai session api_key text =
     (let u = ''https://api.openai.com/v1/engines/davinci-codex/completions'';
          hs = [(''Authorization'', ''Bearer '' @ api_key),
                (''Content-Type'', ''application/json'')];
          data = JObj [(''prompt'',
                        JStr (''Rewrite the following text in a maximum of 50 words:'' @ [CHR 0x0A] @ text)),
                       (''max_tokens'', JNum 50)];
          (reqs, r) = send_request session ''POST'' u hs data
      in (reqs,
          case r of
            Inl e \<Rightarrow> Inl e
          | Inr response_data \<Rightarrow>
              Inr (if response_data \<noteq> JNull then
                     (case py_getitem response_data ''choices'' of
                        Inl e \<Rightarrow> JNull
                      | Inr choices \<Rightarrow>
                          (case py_first choices of
                             Inl e \<Rightarrow> JNull
                           | Inr choice \<Rightarrow>
                               (case py_getitem choice ''text'' of
                                  Inl e \<Rightarrow> JNull
                                | Inr t \<Rightarrow>
                                    (case strip_method t of
                                       Inl e \<Rightarrow> JNull
                                     | Inr stripped \<Rightarrow> stripped))))
                   else JNull)))"

section \<open>The orchestrator\<close>

text \<open>The keys read from the configuration file when the module is loaded, as strings.\<close>

record config =
  api_key :: string
  access_token :: string
  user_id :: string
  bot_id :: string
  rewrite_api :: string

definition get_available_traded :: "config \<Rightarrow> json option \<Rightarrow> request list \<times> (error + json)" where
  "get_available_traded cfg answer =
     (let u = ''https://fmpcloud.io/api/v3/available-traded/list?apikey='' @ api_key cfg
      in ([\<lparr>verb = GET, url = u, headers = [], body = JNull\<rparr>],
          case answer of None \<Rightarrow> Inl BulkListError | Some data \<Rightarrow> Inr data))"

text \<open>
  The body of the loop \<^verbatim>\<open>for item in updated_data\<close> of \<^verbatim>\<open>main\<close>, for one item: the requests
  issued and the item as the iteration leaves it, or the exception raised.
\<close>

definition rewrite_item :: "config \<Rightarrow> session \<Rightarrow> json \<Rightarrow> request list \<times> (error + json)" where
  "rewrite_item cfg session item =
     (case py_getitem item ''description'' of
        Inl e \<Rightarrow> ([], Inl e)
      | Inr description \<Rightarrow>
          (case py_concat description
                  ''Can you rewrite the following text with a maximum of 50 words?'' of
             Inl e \<Rightarrow> ([], Inl e)
           | Inr full_text \<Rightarrow>
               (let (reqs, r) =
                      (if py_lower (rewrite_api cfg) = ''openai'' then
                         rewrite_with_openai session (api_key cfg) full_text
                       else if py_lower (rewrite_api cfg) = ''coze'' then
                         rewrite_with_coze session (access_token cfg) (user_id cfg) (bot_id cfg)
                           full_text
                       else ([], Inl InvalidBackend))
                in (reqs,
                    case r of
                      Inl e \<Rightarrow> Inl e
                    | Inr rewritten_description \<Rightarrow>
                        if rewritten_description \<noteq> JNull then
                          update_method item [(''description-new'', rewritten_description)]
                        else Inr item))))"

text \<open>The loop: \<open>net i\<close> is the behaviour of the network for the record at position \<open>i\<close>.\<close>

fun rewrite_all ::
  "config \<Rightarrow> (nat \<Rightarrow> session) \<Rightarrow> nat \<Rightarrow> json list \<Rightarrow> request list \<times> (error + json list)" where
  "rewrite_all cfg net i [] = ([], Inr [])"
| "rewrite_all cfg net i (item # rest) =
     (case rewrite_item cfg (net i) item of
        (reqs, Inl e) \<Rightarrow> (reqs, Inl e)
      | (reqs, Inr item') \<Rightarrow>
          (case rewrite_all cfg net (Suc i) rest of
             (reqs', Inl e) \<Rightarrow> (reqs @ reqs', Inl e)
           | (reqs', Inr rest') \<Rightarrow> (reqs @ reqs', Inr (item' # rest'))))"

subsection \<open>Tabular output\<close>

text \<open>
  \<^verbatim>\<open>list(updated_data[0].keys())\<close>, and \<^verbatim>\<open>csv.DictWriter.writerow\<close> with its defaults: a
  row with a key outside \<^verbatim>\<open>fieldnames\<close> raises \<^verbatim>\<open>ValueError\<close>, a missing key is written as
  the empty string. A row of the file is the list of its cells, before the cells are
  formatted as text.
\<close>

fun keys_method :: "json \<Rightarrow> error + string list" where
  "keys_method (JObj kvs) = Inr (map fst kvs)"
| "keys_method _ = Inl AttributeError"

fun writerow :: "string list \<Rightarrow> json \<Rightarrow> error + json list" where
  "writerow fieldnames (JObj kvs) =
     (if list_ex (\<lambda>k. k \<notin> set fieldnames) (map fst kvs) then Inl ExtraFields
      else Inr (map (\<lambda>f. case map_of kvs f of Some v \<Rightarrow> v | None \<Rightarrow> JStr []) fieldnames))"
| "writerow fieldnames _ = Inl AttributeError"

text \<open>The loop over the rows: the file as written so far, and the exception that ended it.\<close>

fun write_rows :: "string list \<Rightarrow> json list \<Rightarrow> json list list \<Rightarrow> json list list \<times> error option" where
  "write_rows fieldnames [] file = (file, None)"
| "write_rows fieldnames (row # rest) file =
     (case writerow fieldnames row of
        Inl e \<Rightarrow> (file, Some e)
      | Inr cells \<Rightarrow> write_rows fieldnames rest (file @ [cells]))"

subsection \<open>main\<close>

text \<open>
  What the environment decides in one run: the answer to the bulk-list call (\<open>None\<close> when
  it raises), the content of \<^verbatim>\<open>list-test.json\<close> (\<open>None\<close> when it cannot be read), the
  network as seen by each profile task and by the rewrite call of each record, and the
  orders in which the profile tasks start and complete.
\<close>

record environment =
  bulk_list :: "json option"
  list_test :: "json option"
  profile_net :: "key \<Rightarrow> session"
  started :: "nat list"
  completed :: "nat list"
  rewrite_net :: "nat \<Rightarrow> session"

text \<open>
  What one run leaves behind: the HTTP requests issued, in order; the files
  \<^verbatim>\<open>list.json\<close> and \<^verbatim>\<open>output.csv\<close> (\<open>None\<close> when never opened for writing); and the
  exception that ended the run, if any.
\<close>

record run =
  http :: "request list"
  list_json :: "json option"
  output_csv :: "json list list option"
  raised :: "error option"

definition main :: "config \<Rightarrow> environment \<Rightarrow> run" where
  "main cfg env =
     (case get_available_traded cfg (bulk_list env) of
        (reqs0, Inl e) \<Rightarrow>
          \<lparr>http = reqs0, list_json = None, output_csv = None, raised = Some e\<rparr>
      | (reqs0, Inr listing) \<Rightarrow>
          (let stop = (\<lambda>reqs e. \<lparr>http = reqs0 @ reqs, list_json = Some listing,
                                   output_csv = None, raised = Some e\<rparr>)
           in case list_test env of
                None \<Rightarrow> stop [] InputFileError
              | Some data \<Rightarrow>
                  (case py_iter data of
                     Inl e \<Rightarrow> stop [] e
                   | Inr items \<Rightarrow>
                       (case filtered_data items of
                          Inl e \<Rightarrow> stop [] e
                        | Inr filtered \<Rightarrow>
                            (case update_with_profile (profile_net env) (started env)
                                    (completed env) filtered
                                    ''https://fmpcloud.io/api/v3/profile/'' (api_key cfg) of
                               (reqs1, Inl e) \<Rightarrow> stop reqs1 e
                             | (reqs1, Inr enriched) \<Rightarrow>
                                 (case rewrite_all cfg (rewrite_net env) 0 enriched of
                                    (reqs2, Inl e) \<Rightarrow> stop (reqs1 @ reqs2) e
                                  | (reqs2, Inr updated_data) \<Rightarrow>
                                      (case updated_data of
                                         [] \<Rightarrow> stop (reqs1 @ reqs2) IndexError
                                       | first # others \<Rightarrow>
                                           (case keys_method first of
                                              Inl e \<Rightarrow> stop (reqs1 @ reqs2) e
                                            | Inr fieldnames \<Rightarrow>
                                                (let (file, err) =
                                                       write_rows fieldnames updated_data
                                                         [map JStr fieldnames]
                                                 in \<lparr>http = reqs0 @ reqs1 @ reqs2,
                                                     list_json = Some listing,
                                                     output_csv = Some file,
                                                     raised = err\<rparr>)))))))))"

section \<open>Notions of the specification\<close>

text \<open>
  Matching "case-insensitively": two strings of the same length whose characters agree
  position by position, up to the case of a letter.
\<close>

definition same_letter :: "char \<Rightarrow> char \<Rightarrow> bool" where
  "same_letter c d =
     (c = d \<or> (c, d) \<in> set (zip upper_letters lower_letters)
            \<or> (d, c) \<in> set (zip upper_letters lower_letters))"

definition matches_ignoring_case :: "string \<Rightarrow> string \<Rightarrow> bool" where
  "matches_ignoring_case s t = list_all2 same_letter s t"

text \<open>
  A candidate: an object whose \<^verbatim>\<open>type\<close> is a string matching \<^verbatim>\<open>stock\<close> or \<^verbatim>\<open>etf\<close>
  case-insensitively and whose \<^verbatim>\<open>exchangeShortName\<close> is \<^verbatim>\<open>AMEX\<close> or \<^verbatim>\<open>NASDAQ\<close>.
\<close>

definition candidate :: "json \<Rightarrow> bool" where
  "candidate item =
     (case item of
        JObj kvs \<Rightarrow>
          (case map_of kvs ''type'' of
             Some (JStr t) \<Rightarrow>
               (matches_ignoring_case t ''stock'' \<or> matches_ignoring_case t ''etf'')
               \<and> (map_of kvs ''exchangeShortName'' = Some (JStr ''AMEX'')
                    \<or> map_of kvs ''exchangeShortName'' = Some (JStr ''NASDAQ''))
           | _ \<Rightarrow> False)
      | _ \<Rightarrow> False)"

text \<open>
  An instrument object as the bulk list delivers it: an object with a string \<^verbatim>\<open>type\<close> and
  an \<^verbatim>\<open>exchangeShortName\<close>.
\<close>

definition instrument :: "json \<Rightarrow> bool" where
  "instrument item =
     (case item of
        JObj kvs \<Rightarrow>
          (case map_of kvs ''type'' of
             Some (JStr t) \<Rightarrow> map_of kvs ''exchangeShortName'' \<noteq> None
           | _ \<Rightarrow> False)
      | _ \<Rightarrow> False)"

text \<open>
  The invariant of the record collection: the record stored under a key is an object
  whose \<^verbatim>\<open>symbol\<close> is that key.
\<close>

definition record_of :: "key \<Rightarrow> json \<Rightarrow> bool" where
  "record_of k item =
     (case py_getitem item ''symbol'' of
        Inr v \<Rightarrow> (case as_key v of Inr k' \<Rightarrow> py_eq k k' | Inl e \<Rightarrow> False)
      | Inl e \<Rightarrow> False)"

text \<open>
  The merge policy for one record: a completed fetch is usable when it returned \<^verbatim>\<open>None\<close>
  or a body from which the six fields can be read, and a usable fetch that is not
  \<^verbatim>\<open>None\<close> writes the six fields into the record.
\<close>

definition usable :: "json \<Rightarrow> bool" where
  "usable profile_data =
     (profile_data = JNull
      \<or> (case profile_literal profile_data profile_fields of Inr literal \<Rightarrow> True | Inl e \<Rightarrow> False))"

definition enriched :: "json \<Rightarrow> json \<Rightarrow> json" where
  "enriched profile_data item =
     (if profile_data \<noteq> JNull then
        (case profile_literal profile_data profile_fields of
           Inr literal \<Rightarrow>
             (case update_method item literal of Inr item' \<Rightarrow> item' | Inl e \<Rightarrow> item)
         | Inl e \<Rightarrow> item)
      else item)"

text \<open>What the task of a symbol delivers as \<^verbatim>\<open>profile_data\<close>.\<close>

definition fetched :: "(key \<Rightarrow> session) \<Rightarrow> string \<Rightarrow> string \<Rightarrow> key \<Rightarrow> json" where
  "fetched net api_url k symbol =
     receive (net symbol \<lparr>verb = GET, url = api_url @ py_str symbol @ ''?apikey='' @ k,
                           headers = [], body = JNull\<rparr>)"

section \<open>Scenarios\<close>

text \<open>
  Concrete runs used below: three candidates, the body of a successful profile fetch, the
  body of a successful completion-style rewrite, and two configurations.
\<close>

definition item_A :: json where
  "item_A = JObj [(''symbol'', JStr ''A''), (''type'', JStr ''stock''),
                  (''exchangeShortName'', JStr ''NASDAQ'')]"

definition item_B :: json where
  "item_B = JObj [(''symbol'', JStr ''B''), (''type'', JStr ''etf''),
                  (''exchangeShortName'', JStr ''AMEX'')]"

definition item_C :: json where
  "item_C = JObj [(''symbol'', JStr ''C''), (''type'', JStr ''stock''),
                  (''exchangeShortName'', JStr ''AMEX'')]"

definition acme_profile :: json where
  "acme_profile =
     JArr [JObj [(''currency'', JStr ''USD''), (''industry'', JStr ''Tools''),
                 (''sector'', JStr ''Industrials''), (''country'', JStr ''US''),
                 (''image'', JStr ''a.png''),
                 (''description'', JStr ''Acme Corp makes widgets.'')]]"

definition acme_choices :: json where
  "acme_choices = JObj [(''choices'', JArr [JObj [(''text'', JStr ''  Acme makes widgets.  '')]])]"

definition cfg_openai :: config where
  "cfg_openai = \<lparr>api_key = ''k'', access_token = ''at'', user_id = ''u'', bot_id = ''b'',
                  rewrite_api = ''openai''\<rparr>"

definition cfg_azure :: config where
  "cfg_azure = \<lparr>api_key = ''k'', access_token = ''at'', user_id = ''u'', bot_id = ''b'',
                 rewrite_api = ''azure''\<rparr>"

text \<open>One candidate; its profile fetch and its rewrite call succeed.\<close>

definition env_one_candidate :: environment where
  "env_one_candidate =
     \<lparr>bulk_list = Some (JArr []), list_test = Some (JArr [item_A]),
      profile_net = (\<lambda>s r. Response 200 (Parsed acme_profile)),
      started = [], completed = [],
      rewrite_net = (\<lambda>i r. Response 200 (Parsed acme_choices))\<rparr>"

text \<open>
  Three candidates; the profile fetch of B is answered with status 404, those of A and C
  succeed; every rewrite call succeeds.
\<close>

definition env_fetch_of_B_fails :: environment where
  "env_fetch_of_B_fails =
     \<lparr>bulk_list = Some (JArr []), list_test = Some (JArr [item_A, item_B, item_C]),
      profile_net = (\<lambda>s r. if s = KStr ''B'' then Response 404 Malformed
                            else Response 200 (Parsed acme_profile)),
      started = [], completed = [],
      rewrite_net = (\<lambda>i r. Response 200 (Parsed acme_choices))\<rparr>"

text \<open>
  Two candidates, both enriched; the rewrite call of the first fails in transport, that
  of the second succeeds.
\<close>

definition env_first_rewrite_fails :: environment where
  "env_first_rewrite_fails =
     \<lparr>bulk_list = Some (JArr []), list_test = Some (JArr [item_A, item_B]),
      profile_net = (\<lambda>s r. Response 200 (Parsed acme_profile)),
      started = [], completed = [],
      rewrite_net = (\<lambda>i r. if i = 0 then Failed else Response 200 (Parsed acme_choices))\<rparr>"

text \<open>One candidate; its profile fetch is answered with status 200 and an empty array.\<close>

definition env_empty_profile :: environment where
  "env_empty_profile =
     \<lparr>bulk_list = Some (JArr []), list_test = Some (JArr [item_A]),
      profile_net = (\<lambda>s r. Response 200 (Parsed (JArr []))),
      started = [], completed = [],
      rewrite_net = (\<lambda>i r. Response 200 (Parsed acme_choices))\<rparr>"

section \<open>The request executor never raises on GET and POST\<close>

lemma receive_other_status: "status \<noteq> 200 \<Longrightarrow> receive (Response status p) = JNull"
  by (cases p) simp_all

text \<open>
  Claim C6. Called with a method that is GET or POST (in any case of the letters),
  \<^verbatim>\<open>send_request\<close> issues exactly one request, with the URL, headers and body it was given,
  and returns without raising: the parsed body when the status is 200, and \<^verbatim>\<open>None\<close> when
  the status is not 200, when the body of a 200 response cannot be parsed, and when the
  transport raised.
\<close>

theorem send_request_returns:
  assumes "py_upper method = ''GET'' \<or> py_upper method = ''POST''"
  shows "\<exists>req. url req = u \<and> headers req = hs \<and> body req = json_data
           \<and> fst (send_request session method u hs json_data) = [req]
           \<and> (\<forall>j. session req = Response 200 (Parsed j)
                 \<longrightarrow> snd (send_request session method u hs json_data) = Inr j)
           \<and> (\<forall>status p. status \<noteq> 200 \<and> session req = Response status p
                 \<longrightarrow> snd (send_request session method u hs json_data) = Inr JNull)
           \<and> (session req = Response 200 Malformed
                 \<longrightarrow> snd (send_request session method u hs json_data) = Inr JNull)
           \<and> (session req = Failed
                 \<longrightarrow> snd (send_request session method u hs json_data) = Inr JNull)"
proof (cases "py_upper method = ''GET''")
  case True
  let ?req = "\<lparr>verb = GET, url = u, headers = hs, body = json_data\<rparr>"
  have res: "send_request session method u hs json_data = ([?req], Inr (receive (session ?req)))"
    using True by (simp add: send_request_def Let_def)
  show ?thesis
    by (rule exI [of _ ?req]) (simp add: res receive_other_status)
next
  case False
  with assms have post: "py_upper method = ''POST''" by simp
  let ?req = "\<lparr>verb = POST, url = u, headers = hs, body = json_data\<rparr>"
  have res: "send_request session method u hs json_data = ([?req], Inr (receive (session ?req)))"
    using False post by (simp add: send_request_def Let_def)
  show ?thesis
    by (rule exI [of _ ?req]) (simp add: res receive_other_status)
qed

lemma py_upper_post: "py_upper ''post'' = ''POST''"
  by (simp add: py_upper_def py_upper_char_def lower_letters_def upper_letters_def)

theorem send_request_returns_witness:
  "(py_upper ''post'' = ''GET'' \<or> py_upper ''post'' = ''POST'') \<and>
   snd (send_request (\<lambda>r. Response 503 (Parsed (JStr ''busy''))) ''post'' ''http://h/'' [] JNull)
     = Inr JNull"
proof -
  have h: "py_upper ''post'' = ''GET'' \<or> py_upper ''post'' = ''POST''"
    by (simp add: py_upper_post)
  from send_request_returns
         [OF h, of "''http://h/''" "[]" JNull "\<lambda>r. Response 503 (Parsed (JStr ''busy''))"]
  have "snd (send_request (\<lambda>r. Response 503 (Parsed (JStr ''busy''))) ''post'' ''http://h/'' [] JNull)
          = Inr JNull"
    by auto
  with h show ?thesis by (rule conjI)
qed

section \<open>The candidate filter\<close>

lemma distinct_upper_letters: "distinct upper_letters"
  by (simp add: upper_letters_def)

lemma length_letters: "length upper_letters = length lower_letters"
  by (simp add: upper_letters_def lower_letters_def)

lemma py_lower_char_same_letter:
  assumes "d \<notin> set upper_letters"
  shows "py_lower_char c = d \<longleftrightarrow> same_letter c d"
proof -
  have dist: "distinct (map fst (zip upper_letters lower_letters))"
    using distinct_upper_letters length_letters by simp
  have up: "\<And>y. (d, y) \<notin> set (zip upper_letters lower_letters)"
    using assms by (auto dest: set_zip_leftD)
  show ?thesis
  proof (cases "map_of (zip upper_letters lower_letters) c")
    case None
    then have "\<And>y. (c, y) \<notin> set (zip upper_letters lower_letters)"
      using dist by (metis map_of_eq_Some_iff option.distinct(1))
    with None up show ?thesis
      by (auto simp: py_lower_char_def same_letter_def)
  next
    case (Some e)
    then have mem: "(c, e) \<in> set (zip upper_letters lower_letters)"
      by (rule map_of_SomeD)
    then have "c \<in> set upper_letters" by (rule set_zip_leftD)
    with assms have "c \<noteq> d" by auto
    moreover have "(c, d) \<in> set (zip upper_letters lower_letters) \<longleftrightarrow> e = d"
      using Some dist by (metis map_of_eq_Some_iff option.inject)
    ultimately show ?thesis
      using Some up by (auto simp: py_lower_char_def same_letter_def)
  qed
qed

lemma py_lower_matches:
  "set t \<inter> set upper_letters = {} \<Longrightarrow> py_lower s = t \<longleftrightarrow> matches_ignoring_case s t"
proof (induction s arbitrary: t)
  case Nil
  then show ?case by (auto simp: py_lower_def matches_ignoring_case_def)
next
  case (Cons c s)
  show ?case
  proof (cases t)
    case Nil
    then show ?thesis by (simp add: py_lower_def matches_ignoring_case_def)
  next
    case (Cons d t')
    with Cons.prems have d: "d \<notin> set upper_letters" and t': "set t' \<inter> set upper_letters = {}"
      by auto
    from Cons.IH [OF t'] py_lower_char_same_letter [OF d, of c] Cons show ?thesis
      by (simp add: py_lower_def matches_ignoring_case_def)
  qed
qed

lemma lowered_stock: "py_lower s = ''stock'' \<longleftrightarrow> matches_ignoring_case s ''stock''"
  by (rule py_lower_matches) (simp add: upper_letters_def)

lemma lowered_etf: "py_lower s = ''etf'' \<longleftrightarrow> matches_ignoring_case s ''etf''"
  by (rule py_lower_matches) (simp add: upper_letters_def)

lemma is_candidate_Inr: "is_candidate item = Inr keep \<Longrightarrow> keep = candidate item"
  apply (cases item)
  apply (auto simp: is_candidate_def candidate_def lowered_stock lowered_etf
              split: option.splits sum.splits json.splits if_splits)
  done

lemma is_candidate_instrument: "instrument item \<Longrightarrow> is_candidate item = Inr (candidate item)"
  apply (cases item)
  apply (auto simp: is_candidate_def candidate_def instrument_def lowered_stock lowered_etf
              split: option.splits sum.splits json.splits if_splits)
  done

lemma filtered_data_Inr: "filtered_data items = Inr out \<Longrightarrow> out = filter candidate items"
proof (induction items arbitrary: out)
  case Nil
  then show ?case by simp
next
  case (Cons item rest)
  then show ?case
    by (auto split: sum.splits if_splits dest: is_candidate_Inr)
qed

lemma filtered_data_instruments:
  "list_all instrument items \<Longrightarrow> filtered_data items = Inr (filter candidate items)"
  by (induction items) (simp_all add: is_candidate_instrument)

text \<open>
  Claim C7. Whenever the filter returns, what it returns is the input list restricted to
  the candidates: the items kept are exactly those whose \<^verbatim>\<open>type\<close> matches \<^verbatim>\<open>stock\<close> or
  \<^verbatim>\<open>etf\<close> case-insensitively and whose \<^verbatim>\<open>exchangeShortName\<close> is \<^verbatim>\<open>AMEX\<close> or \<^verbatim>\<open>NASDAQ\<close>, each
  unmodified and in the order of the input. On a list of instrument objects the filter
  does return.
\<close>

theorem filtered_data_exact:
  "(filtered_data items = Inr out \<longrightarrow> out = filter candidate items)
   \<and> (list_all instrument items \<longrightarrow> filtered_data items = Inr (filter candidate items))"
  using filtered_data_Inr filtered_data_instruments by blast

theorem filtered_data_exact_witness:
  "list_all instrument
     [JObj [(''symbol'', JStr ''A''), (''type'', JStr ''Stock''), (''exchangeShortName'', JStr ''NASDAQ'')],
      JObj [(''symbol'', JStr ''B''), (''type'', JStr ''bond''), (''exchangeShortName'', JStr ''AMEX'')],
      JObj [(''symbol'', JStr ''C''), (''type'', JStr ''ETF''), (''exchangeShortName'', JStr ''AMEX'')],
      JObj [(''symbol'', JStr ''D''), (''type'', JStr ''etf''), (''exchangeShortName'', JStr ''NYSE'')]]
   \<and> filtered_data
     [JObj [(''symbol'', JStr ''A''), (''type'', JStr ''Stock''), (''exchangeShortName'', JStr ''NASDAQ'')],
      JObj [(''symbol'', JStr ''B''), (''type'', JStr ''bond''), (''exchangeShortName'', JStr ''AMEX'')],
      JObj [(''symbol'', JStr ''C''), (''type'', JStr ''ETF''), (''exchangeShortName'', JStr ''AMEX'')],
      JObj [(''symbol'', JStr ''D''), (''type'', JStr ''etf''), (''exchangeShortName'', JStr ''NYSE'')]]
     = Inr
     [JObj [(''symbol'', JStr ''A''), (''type'', JStr ''Stock''), (''exchangeShortName'', JStr ''NASDAQ'')],
      JObj [(''symbol'', JStr ''C''), (''type'', JStr ''ETF''), (''exchangeShortName'', JStr ''AMEX'')]]"
  (is "list_all instrument ?items \<and> filtered_data ?items = Inr ?kept")
proof -
  have h: "list_all instrument ?items"
    by (simp add: instrument_def)
  have kept: "filter candidate ?items = ?kept"
    by code_simp
  from filtered_data_exact [of ?items] h have "filtered_data ?items = Inr (filter candidate ?items)"
    by blast
  with kept have "filtered_data ?items = Inr ?kept" by simp
  with h show ?thesis by (rule conjI)
qed

section \<open>The completion-style rewriter\<close>

lemma py_upper_POST: "py_upper ''POST'' = ''POST''"
  by (simp add: py_upper_def py_upper_char_def lower_letters_def upper_letters_def)

lemma py_upper_GET: "py_upper ''GET'' = ''GET''"
  by (simp add: py_upper_def py_upper_char_def lower_letters_def upper_letters_def)

lemma send_request_POST:
  "send_request session ''POST'' u hs d =
     ([\<lparr>verb = POST, url = u, headers = hs, body = d\<rparr>],
      Inr (receive (session \<lparr>verb = POST, url = u, headers = hs, body = d\<rparr>)))"
  by (simp add: send_request_def py_upper_POST Let_def)

lemma send_request_GET:
  "send_request session ''GET'' u hs d =
     ([\<lparr>verb = GET, url = u, headers = hs, body = d\<rparr>],
      Inr (receive (session \<lparr>verb = GET, url = u, headers = hs, body = d\<rparr>)))"
  by (simp add: send_request_def py_upper_GET Let_def)

lemma py_strip_split:
  "\<exists>a b. t = a @ py_strip t @ b \<and> list_all py_isspace a \<and> list_all py_isspace b"
proof -
  let ?s = "dropWhile py_isspace t"
  have 1: "t = takeWhile py_isspace t @ ?s" by simp
  have "rev (takeWhile py_isspace (rev ?s) @ dropWhile py_isspace (rev ?s)) = ?s"
    by (simp only: takeWhile_dropWhile_id rev_rev_ident)
  then have 2: "?s = py_strip t @ rev (takeWhile py_isspace (rev ?s))"
    by (simp only: rev_append py_strip_def)
  have 3: "list_all py_isspace (takeWhile py_isspace t)"
    by (simp add: list_all_iff) (metis set_takeWhileD)
  have 4: "list_all py_isspace (rev (takeWhile py_isspace (rev ?s)))"
    by (simp add: list_all_iff) (metis set_takeWhileD)
  from 1 2 have "t = takeWhile py_isspace t @ py_strip t @ rev (takeWhile py_isspace (rev ?s))"
    by metis
  with 3 4 show ?thesis by blast
qed

lemma py_strip_ends:
  assumes "py_strip t \<noteq> []"
  shows "\<not> py_isspace (hd (py_strip t)) \<and> \<not> py_isspace (last (py_strip t))"
proof -
  let ?s = "dropWhile py_isspace t"
  let ?r = "dropWhile py_isspace (rev ?s)"
  have r: "py_strip t = rev ?r" by (simp add: py_strip_def)
  with assms have ne: "?r \<noteq> []" by simp
  then have "\<not> py_isspace (hd ?r)" by (rule hd_dropWhile)
  then have last: "\<not> py_isspace (last (py_strip t))"
    using ne r by (simp add: last_rev)
  have "rev (takeWhile py_isspace (rev ?s) @ ?r) = ?s"
    by (simp only: takeWhile_dropWhile_id rev_rev_ident)
  then have s: "?s = py_strip t @ rev (takeWhile py_isspace (rev ?s))"
    by (simp only: rev_append py_strip_def)
  with assms have "?s \<noteq> []" by (metis append_is_Nil_conv)
  then have "\<not> py_isspace (hd ?s)" by (rule hd_dropWhile)
  moreover from s assms have "hd ?s = hd (py_strip t)"
    by (metis hd_append2)
  ultimately show ?thesis using last by simp
qed

lemma rewrite_with_openai_requests:
  "fst (rewrite_with_openai session k text) =
     [\<lparr>verb = POST, url = ''https://api.openai.com/v1/engines/davinci-codex/completions'',
       headers = [(''Authorization'', ''Bearer '' @ k), (''Content-Type'', ''application/json'')],
       body = JObj [(''prompt'',
                     JStr (''Rewrite the following text in a maximum of 50 words:'' @ [CHR 0x0A] @ text)),
                    (''max_tokens'', JNum 50)]\<rparr>]"
  by (simp add: rewrite_with_openai_def send_request_POST Let_def)

lemma rewrite_with_openai_choice:
  assumes "session \<lparr>verb = POST, url = ''https://api.openai.com/v1/engines/davinci-codex/completions'',
       headers = [(''Authorization'', ''Bearer '' @ k), (''Content-Type'', ''application/json'')],
       body = JObj [(''prompt'',
                     JStr (''Rewrite the following text in a maximum of 50 words:'' @ [CHR 0x0A] @ text)),
                    (''max_tokens'', JNum 50)]\<rparr> = Response 200 (Parsed (JObj kvs))"
    and "map_of kvs ''choices'' = Some (JArr (JObj c # rest))"
    and "map_of c ''text'' = Some (JStr t)"
  shows "snd (rewrite_with_openai session k text) = Inr (JStr (py_strip t))"
  using assms by (simp add: rewrite_with_openai_def send_request_POST Let_def)

text \<open>
  Claim C8. For every text, the completion-style rewriter issues exactly one request: a
  POST whose \<^verbatim>\<open>Authorization\<close> header is \<^verbatim>\<open>Bearer\<close> followed by the API key, whose
  \<^verbatim>\<open>prompt\<close> is the instruction to rewrite in a maximum of 50 words followed by a line
  break and the text, and whose \<^verbatim>\<open>max_tokens\<close> is 50. When the answer has status 200 and
  the first element of its \<^verbatim>\<open>choices\<close> array has the string \<open>t\<close> as \<^verbatim>\<open>text\<close>, the result is
  \<open>t\<close> without its leading and trailing whitespace: \<open>t\<close> is the result between two runs
  of whitespace, and the result neither starts nor ends with whitespace.
\<close>

theorem rewrite_with_openai_contract:
  "\<exists>req. fst (rewrite_with_openai session k text) = [req]
     \<and> verb req = POST
     \<and> map_of (headers req) ''Authorization'' = Some (''Bearer '' @ k)
     \<and> py_getitem (body req) ''prompt''
         = Inr (JStr (''Rewrite the following text in a maximum of 50 words:'' @ [CHR 0x0A] @ text))
     \<and> py_getitem (body req) ''max_tokens'' = Inr (JNum 50)
     \<and> (\<forall>kvs c rest t.
           session req = Response 200 (Parsed (JObj kvs))
           \<and> map_of kvs ''choices'' = Some (JArr (JObj c # rest))
           \<and> map_of c ''text'' = Some (JStr t)
           \<longrightarrow> (\<exists>a r b. snd (rewrite_with_openai session k text) = Inr (JStr r)
                  \<and> t = a @ r @ b \<and> list_all py_isspace a \<and> list_all py_isspace b
                  \<and> (r = [] \<or> \<not> py_isspace (hd r) \<and> \<not> py_isspace (last r))))"
proof -
  let ?req = "\<lparr>verb = POST, url = ''https://api.openai.com/v1/engines/davinci-codex/completions'',
       headers = [(''Authorization'', ''Bearer '' @ k), (''Content-Type'', ''application/json'')],
       body = JObj [(''prompt'',
                     JStr (''Rewrite the following text in a maximum of 50 words:'' @ [CHR 0x0A] @ text)),
                    (''max_tokens'', JNum 50)]\<rparr>"
  have answer: "\<exists>a r b. snd (rewrite_with_openai session k text) = Inr (JStr r)
                  \<and> t = a @ r @ b \<and> list_all py_isspace a \<and> list_all py_isspace b
                  \<and> (r = [] \<or> \<not> py_isspace (hd r) \<and> \<not> py_isspace (last r))"
    if "session ?req = Response 200 (Parsed (JObj kvs))"
      and "map_of kvs ''choices'' = Some (JArr (JObj c # rest))"
      and "map_of c ''text'' = Some (JStr t)" for kvs c rest t
  proof -
    from that have res: "snd (rewrite_with_openai session k text) = Inr (JStr (py_strip t))"
      by (rule rewrite_with_openai_choice)
    from py_strip_split [of t] obtain a b
      where "t = a @ py_strip t @ b" "list_all py_isspace a" "list_all py_isspace b"
      by blast
    with res py_strip_ends [of t] show ?thesis by blast
  qed
  show ?thesis
    apply (rule exI [of _ ?req])
    apply (intro conjI)
         apply (rule rewrite_with_openai_requests)
        apply simp
       apply simp
      apply simp
     apply simp
    using answer apply blast
    done
qed

theorem rewrite_with_openai_contract_witness:
  "\<exists>req. fst (rewrite_with_openai
               (\<lambda>r. Response 200 (Parsed (JObj [(''choices'', JArr [JObj [(''text'', JStr '' ok '')]])])))
               ''sk'' ''Hello'') = [req]
     \<and> verb req = POST
     \<and> (\<exists>a r b. snd (rewrite_with_openai
               (\<lambda>r. Response 200 (Parsed (JObj [(''choices'', JArr [JObj [(''text'', JStr '' ok '')]])])))
               ''sk'' ''Hello'') = Inr (JStr r)
            \<and> '' ok '' = a @ r @ b \<and> list_all py_isspace a \<and> list_all py_isspace b)"
  (is "\<exists>req. fst (rewrite_with_openai ?S _ _) = [req] \<and> _")
proof -
  from rewrite_with_openai_contract [of ?S "''sk''" "''Hello''"]
  obtain req where req: "fst (rewrite_with_openai ?S ''sk'' ''Hello'') = [req]" "verb req = POST"
    and answer: "\<forall>kvs c rest t.
           ?S req = Response 200 (Parsed (JObj kvs))
           \<and> map_of kvs ''choices'' = Some (JArr (JObj c # rest))
           \<and> map_of c ''text'' = Some (JStr t)
           \<longrightarrow> (\<exists>a r b. snd (rewrite_with_openai ?S ''sk'' ''Hello'') = Inr (JStr r)
                  \<and> t = a @ r @ b \<and> list_all py_isspace a \<and> list_all py_isspace b
                  \<and> (r = [] \<or> \<not> py_isspace (hd r) \<and> \<not> py_isspace (last r)))"
    by blast
  from answer [rule_format, of "[(''choices'', JArr [JObj [(''text'', JStr '' ok '')]])]"
                 "[(''text'', JStr '' ok '')]" "[]" "'' ok ''"]
  have "\<exists>a r b. snd (rewrite_with_openai ?S ''sk'' ''Hello'') = Inr (JStr r)
                  \<and> '' ok '' = a @ r @ b \<and> list_all py_isspace a \<and> list_all py_isspace b"
    by auto
  with req show ?thesis by blast
qed

section \<open>Storing the rewritten description\<close>

lemma py_strip_acme: "py_strip ''  Acme makes widgets.  '' = ''Acme makes widgets.''"
  by (simp add: py_strip_def py_isspace_def whitespace_def)

lemma py_lower_openai: "py_lower ''openai'' = ''openai''"
  by (simp add: py_lower_def py_lower_char_def lower_letters_def upper_letters_def)

text \<open>
  Claim C9. With the completion-style backend configured, for a record whose
  \<^verbatim>\<open>description\<close> is a string and a rewrite call answered with status 200 and
  \<^verbatim>\<open>choices[0].text\<close> equal to \<^verbatim>\<open>"  Acme makes widgets.  "\<close>, the iteration of the rewriting
  loop leaves a record whose \<^verbatim>\<open>description-new\<close> is \<^verbatim>\<open>"Acme makes widgets."\<close>.
\<close>

theorem description_new_is_trimmed:
  assumes "py_lower (rewrite_api cfg) = ''openai''"
    and "py_getitem item ''description'' = Inr (JStr d)"
    and "\<forall>req. \<exists>kvs c rest. session req = Response 200 (Parsed (JObj kvs))
           \<and> map_of kvs ''choices'' = Some (JArr (JObj c # rest))
           \<and> map_of c ''text'' = Some (JStr ''  Acme makes widgets.  '')"
  shows "\<exists>item'. snd (rewrite_item cfg session item) = Inr item'
           \<and> py_getitem item' ''description-new'' = Inr (JStr ''Acme makes widgets.'')"
proof -
  from assms(2) obtain entries where item: "item = JObj entries"
    by (cases item) simp_all
  let ?text = "d @ ''Can you rewrite the following text with a maximum of 50 words?''"
  let ?req = "\<lparr>verb = POST, url = ''https://api.openai.com/v1/engines/davinci-codex/completions'',
       headers = [(''Authorization'', ''Bearer '' @ api_key cfg),
                  (''Content-Type'', ''application/json'')],
       body = JObj [(''prompt'',
                     JStr (''Rewrite the following text in a maximum of 50 words:'' @ [CHR 0x0A] @ ?text)),
                    (''max_tokens'', JNum 50)]\<rparr>"
  from assms(3) obtain kvs c rest where
    "session ?req = Response 200 (Parsed (JObj kvs))"
    "map_of kvs ''choices'' = Some (JArr (JObj c # rest))"
    "map_of c ''text'' = Some (JStr ''  Acme makes widgets.  '')"
    by blast
  then have "snd (rewrite_with_openai session (api_key cfg) ?text)
               = Inr (JStr (py_strip ''  Acme makes widgets.  ''))"
    by (rule rewrite_with_openai_choice)
  then have res: "snd (rewrite_with_openai session (api_key cfg) ?text)
               = Inr (JStr ''Acme makes widgets.'')"
    by (simp only: py_strip_acme)
  have "snd (rewrite_item cfg session item)
          = Inr (JObj (dict_update [(''description-new'', JStr ''Acme makes widgets.'')] entries))"
    using assms(1,2) res item
    by (simp add: rewrite_item_def split_beta)
  moreover have "py_getitem (JObj (dict_update [(''description-new'', JStr ''Acme makes widgets.'')] entries))
                   ''description-new'' = Inr (JStr ''Acme makes widgets.'')"
    by (simp add: dict_update_def update_conv')
  ultimately show ?thesis by simp
qed

theorem description_new_is_trimmed_witness:
  "py_getitem (JObj [(''symbol'', JStr ''ACME''), (''description'', JStr ''Acme Corp makes widgets.'')])
     ''description'' = Inr (JStr ''Acme Corp makes widgets.'')
   \<and> (\<exists>item'. snd (rewrite_item
          \<lparr>api_key = ''sk'', access_token = ''at'', user_id = ''u'', bot_id = ''b'',
            rewrite_api = ''openai''\<rparr>
          (\<lambda>r. Response 200
                  (Parsed (JObj [(''choices'', JArr [JObj [(''text'', JStr ''  Acme makes widgets.  '')]])])))
          (JObj [(''symbol'', JStr ''ACME''), (''description'', JStr ''Acme Corp makes widgets.'')]))
         = Inr item'
       \<and> py_getitem item' ''description-new'' = Inr (JStr ''Acme makes widgets.''))"
  (is "py_getitem ?item _ = _ \<and> (\<exists>item'. snd (rewrite_item ?cfg ?S _) = _ \<and> _)")
proof -
  have h1: "py_lower (rewrite_api ?cfg) = ''openai''"
    by (simp add: py_lower_openai)
  have h2: "py_getitem ?item ''description'' = Inr (JStr ''Acme Corp makes widgets.'')"
    by simp
  have h3: "\<forall>req. \<exists>kvs c rest. ?S req = Response 200 (Parsed (JObj kvs))
           \<and> map_of kvs ''choices'' = Some (JArr (JObj c # rest))
           \<and> map_of c ''text'' = Some (JStr ''  Acme makes widgets.  '')"
    by simp
  from h2 description_new_is_trimmed [OF h1 h2 h3] show ?thesis by (rule conjI)
qed

section \<open>An empty candidate list\<close>

lemma permute_Nil: "permute picks [] = []"
  by (cases picks) simp_all

lemma update_with_profile_Nil:
  "update_with_profile net sp cp [] api_url k = ([], Inr [])"
  by (simp add: update_with_profile_def permute_Nil)

text \<open>
  Claim C10. When the bulk list was fetched and \<^verbatim>\<open>list-test.json\<close> was read, and no item
  passes the filter, the run ends with \<^verbatim>\<open>IndexError\<close>, raised by \<^verbatim>\<open>updated_data[0]\<close>:
  \<^verbatim>\<open>output.csv\<close> is never opened, so it has no header and no row, and the only request
  issued is the bulk-list call.
\<close>

theorem no_candidates_index_error:
  assumes "bulk_list env = Some listing"
    and "list_test env = Some data"
    and "py_iter data = Inr items"
    and "filtered_data items = Inr []"
  shows "main cfg env =
           \<lparr>http = [\<lparr>verb = GET,
                      url = ''https://fmpcloud.io/api/v3/available-traded/list?apikey='' @ api_key cfg,
                      headers = [], body = JNull\<rparr>],
            list_json = Some listing, output_csv = None, raised = Some IndexError\<rparr>"
  using assms
  by (simp add: main_def get_available_traded_def update_with_profile_Nil)

theorem no_candidates_index_error_witness:
  "filtered_data [JObj [(''symbol'', JStr ''B''), (''type'', JStr ''bond''),
                        (''exchangeShortName'', JStr ''NYSE'')]] = Inr []
   \<and> raised (main \<lparr>api_key = ''k'', access_token = ''at'', user_id = ''u'', bot_id = ''b'',
                    rewrite_api = ''openai''\<rparr>
                  \<lparr>bulk_list = Some (JArr []),
                    list_test = Some (JArr [JObj [(''symbol'', JStr ''B''), (''type'', JStr ''bond''),
                                                  (''exchangeShortName'', JStr ''NYSE'')]]),
                    profile_net = (\<lambda>s r. Failed), started = [], completed = [],
                    rewrite_net = (\<lambda>i r. Failed)\<rparr>) = Some IndexError
   \<and> output_csv (main \<lparr>api_key = ''k'', access_token = ''at'', user_id = ''u'', bot_id = ''b'',
                    rewrite_api = ''openai''\<rparr>
                  \<lparr>bulk_list = Some (JArr []),
                    list_test = Some (JArr [JObj [(''symbol'', JStr ''B''), (''type'', JStr ''bond''),
                                                  (''exchangeShortName'', JStr ''NYSE'')]]),
                    profile_net = (\<lambda>s r. Failed), started = [], completed = [],
                    rewrite_net = (\<lambda>i r. Failed)\<rparr>) = None"
  (is "filtered_data ?items = _ \<and> raised (main ?cfg ?env) = _ \<and> _")
proof -
  have h1: "bulk_list ?env = Some (JArr [])" by simp
  have h2: "list_test ?env = Some (JArr ?items)" by simp
  have h3: "py_iter (JArr ?items) = Inr ?items" by simp
  have h4: "filtered_data ?items = Inr []" by code_simp
  from no_candidates_index_error [OF h1 h2 h3 h4, of ?cfg]
  have "raised (main ?cfg ?env) = Some IndexError \<and> output_csv (main ?cfg ?env) = None"
    by simp
  with h4 show ?thesis by (rule conjI)
qed

section \<open>The record collection\<close>

lemma dict_set_keys:
  "map (key_value \<circ> fst) (dict_set k v m) =
     (if key_value k \<in> set (map (key_value \<circ> fst) m) then map (key_value \<circ> fst) m
      else map (key_value \<circ> fst) m @ [key_value k])"
proof (induction m)
  case Nil
  then show ?case by simp
next
  case (Cons e m)
  obtain k' x where e: "e = (k', x)" by (cases e)
  show ?case
  proof (cases "py_eq k' k")
    case True
    with e show ?thesis by (simp add: py_eq_def)
  next
    case False
    with e Cons.IH show ?thesis by (simp add: py_eq_def)
  qed
qed

lemma dict_set_distinct:
  "distinct (map (key_value \<circ> fst) m) \<Longrightarrow> distinct (map (key_value \<circ> fst) (dict_set k v m))"
  by (simp add: dict_set_keys)

lemma dict_get_member:
  "distinct (map (key_value \<circ> fst) m) \<Longrightarrow> (k, v) \<in> set m \<Longrightarrow> dict_get m k = Some v"
proof (induction m)
  case Nil
  then show ?case by simp
next
  case (Cons e m)
  obtain k' v' where e: "e = (k', v')" by (cases e)
  show ?case
  proof (cases "py_eq k' k")
    case True
    have "(k, v) \<notin> set m"
    proof
      assume "(k, v) \<in> set m"
      then have "key_value k \<in> set (map (key_value \<circ> fst) m)" by force
      with Cons.prems(1) e True show False by (simp add: py_eq_def)
    qed
    with Cons.prems(2) e True show ?thesis by simp
  next
    case False
    then have "k' \<noteq> k" by (auto simp: py_eq_def)
    with Cons e False show ?thesis by simp
  qed
qed

lemma dict_set_member:
  "distinct (map (key_value \<circ> fst) m) \<Longrightarrow> (k, v) \<in> set m \<Longrightarrow>
     dict_set k v' m = map (\<lambda>(k', x). if k' = k then (k', v') else (k', x)) m"
proof (induction m)
  case Nil
  then show ?case by simp
next
  case (Cons e m)
  obtain k' x where e: "e = (k', x)" by (cases e)
  show ?case
  proof (cases "py_eq k' k")
    case True
    have notin: "key_value k \<notin> set (map (key_value \<circ> fst) m)"
      using Cons.prems(1) e True by (simp add: py_eq_def)
    then have "(k, v) \<notin> set m" by force
    with Cons.prems(2) e have k: "k' = k" by simp
    have "map (\<lambda>(k', x). if k' = k then (k', v') else (k', x)) m = m"
    proof (rule map_idI)
      fix p assume "p \<in> set m"
      then have "key_value (fst p) \<in> set (map (key_value \<circ> fst) m)" by force
      with notin have "fst p \<noteq> k" by auto
      then show "(case p of (k', x) \<Rightarrow> if k' = k then (k', v') else (k', x)) = p"
        by (cases p) simp
    qed
    with e True k show ?thesis by simp
  next
    case False
    then have "k' \<noteq> k" by (auto simp: py_eq_def)
    with Cons e False show ?thesis by simp
  qed
qed

lemma py_eq_trans: "py_eq a b \<Longrightarrow> py_eq b c \<Longrightarrow> py_eq a c"
  by (simp add: py_eq_def)

lemma py_eq_refl: "py_eq a a"
  by (simp add: py_eq_def)

lemma record_of_cong: "py_eq k' k \<Longrightarrow> record_of k item \<Longrightarrow> record_of k' item"
  by (auto simp: record_of_def py_eq_def split: sum.splits)

lemma dict_set_records:
  "list_all (\<lambda>(k, x). record_of k x) m \<Longrightarrow> record_of k item \<Longrightarrow>
     list_all (\<lambda>(k, x). record_of k x) (dict_set k item m)"
  by (induction m) (auto intro: record_of_cong)

lemma data_map_of_invariant:
  "data_map_of items m = Inr m' \<Longrightarrow> distinct (map (key_value \<circ> fst) m) \<Longrightarrow>
     list_all (\<lambda>(k, x). record_of k x) m \<Longrightarrow>
     distinct (map (key_value \<circ> fst) m') \<and> list_all (\<lambda>(k, x). record_of k x) m'"
proof (induction items arbitrary: m)
  case Nil
  then show ?case by simp
next
  case (Cons item rest)
  from Cons.prems(1) obtain v k where v: "py_getitem item ''symbol'' = Inr v"
    and k: "as_key v = Inr k" and rest: "data_map_of rest (dict_set k item m) = Inr m'"
    by (auto split: sum.splits)
  from v k have "record_of k item" by (simp add: record_of_def py_eq_refl)
  with Cons.prems(3) have r: "list_all (\<lambda>(k, x). record_of k x) (dict_set k item m)"
    by (rule dict_set_records)
  from Cons.prems(2) have d: "distinct (map (key_value \<circ> fst) (dict_set k item m))"
    by (rule dict_set_distinct)
  from Cons.IH [OF rest d r] show ?case .
qed

lemma data_map_of_distinct:
  "data_map_of items [] = Inr m \<Longrightarrow> distinct (map (key_value \<circ> fst) m)"
  using data_map_of_invariant [of items "[]" m] by simp

lemma data_map_of_records:
  "data_map_of items [] = Inr m \<Longrightarrow> list_all (\<lambda>(k, x). record_of k x) m"
  using data_map_of_invariant [of items "[]" m] by simp

lemma distinct_keys: "distinct (map (key_value \<circ> fst) m) \<Longrightarrow> distinct (map fst m)"
  by (metis distinct_map map_map)

section \<open>Merging one completed fetch\<close>

lemma profile_literal_keys: "profile_literal pd fs = Inr lit \<Longrightarrow> map fst lit = fs"
  by (induction fs arbitrary: lit) (auto split: sum.splits)

lemma dict_update_other:
  "x \<notin> fst ` set lit \<Longrightarrow> map_of (dict_update lit kvs) x = map_of kvs x"
  by (induction lit arbitrary: kvs) (auto simp: dict_update_def update_conv')

lemma record_of_obj: "record_of k item \<Longrightarrow> \<exists>kvs. item = JObj kvs"
  by (cases item) (simp_all add: record_of_def)

lemma enriched_record:
  assumes "record_of k item"
  shows "record_of k (enriched pd item)"
proof -
  from assms obtain kvs where item: "item = JObj kvs"
    using record_of_obj by blast
  show ?thesis
  proof (cases "pd \<noteq> JNull \<and> (\<exists>lit. profile_literal pd profile_fields = Inr lit)")
    case True
    then obtain lit where lit: "profile_literal pd profile_fields = Inr lit" and pd: "pd \<noteq> JNull"
      by blast
    from lit have "map fst lit = profile_fields" by (rule profile_literal_keys)
    then have "fst ` set lit = set profile_fields" by (metis set_map)
    then have "''symbol'' \<notin> fst ` set lit" by (simp add: profile_fields_def)
    then have "map_of (dict_update lit kvs) ''symbol'' = map_of kvs ''symbol''"
      by (rule dict_update_other)
    with assms item lit pd show ?thesis
      by (simp add: enriched_def record_of_def)
  next
    case False
    then have "enriched pd item = item"
      by (auto simp: enriched_def split: sum.splits)
    with assms show ?thesis by simp
  qed
qed

lemma merge_profile_usable:
  assumes "distinct (map (key_value \<circ> fst) m)"
    and "(s, item) \<in> set m"
    and "record_of s item"
    and "usable pd"
  shows "merge_profile m pd s =
           Inr (map (\<lambda>(k, x). if k = s then (k, enriched pd x) else (k, x)) m)"
proof (cases "pd = JNull")
  case True
  then have "map (\<lambda>(k, x). if k = s then (k, enriched pd x) else (k, x)) m = m"
    by (induction m) (auto simp: enriched_def)
  with True show ?thesis by (simp add: merge_profile_def)
next
  case False
  with assms(4) obtain lit where lit: "profile_literal pd profile_fields = Inr lit"
    by (auto simp: usable_def split: sum.splits)
  from assms(3) obtain kvs where item: "item = JObj kvs"
    using record_of_obj by blast
  have get: "dict_get m s = Some item"
    using assms(1,2) by (rule dict_get_member)
  have item': "enriched pd item = JObj (dict_update lit kvs)"
    using False lit item by (simp add: enriched_def)
  have "merge_profile m pd s = Inr (dict_set s (enriched pd item) m)"
    using False lit item get item' by (simp add: merge_profile_def)
  also have "dict_set s (enriched pd item) m =
               map (\<lambda>(k', x). if k' = s then (k', enriched pd item) else (k', x)) m"
    using assms(1,2) by (rule dict_set_member)
  also have "\<dots> = map (\<lambda>(k, x). if k = s then (k, enriched pd x) else (k, x)) m"
  proof (rule map_cong [OF refl])
    fix p assume p: "p \<in> set m"
    obtain k x where kx: "p = (k, x)" by (cases p)
    have "x = item" if "k = s"
      using that p kx assms(2) distinct_keys [OF assms(1)] by (metis eq_key_imp_eq_value)
    then show "(case p of (k', x) \<Rightarrow> if k' = s then (k', enriched pd item) else (k', x))
             = (case p of (k, x) \<Rightarrow> if k = s then (k, enriched pd x) else (k, x))"
      using kx by auto
  qed
  finally show ?thesis .
qed

lemma merge_profile_unusable: "\<not> usable pd \<Longrightarrow> \<exists>e. merge_profile m pd s = Inl e"
  by (auto simp: merge_profile_def usable_def split: option.splits sum.splits)

section \<open>The loop over the completed fetches\<close>

lemma consume_result:
  assumes "distinct (map (key_value \<circ> fst) m)"
    and "list_all (\<lambda>(k, x). record_of k x) m"
    and "set order \<subseteq> fst ` set m"
    and "distinct order"
  shows "(list_all (\<lambda>s. usable (pd s)) order \<longrightarrow>
            consume (\<lambda>s. Inr (pd s, s)) order m =
              Inr (map (\<lambda>(k, x). if k \<in> set order then (k, enriched (pd k) x) else (k, x)) m))
       \<and> (\<not> list_all (\<lambda>s. usable (pd s)) order \<longrightarrow>
            (\<exists>e. consume (\<lambda>s. Inr (pd s, s)) order m = Inl e))"
  using assms
proof (induction order arbitrary: m)
  case Nil
  then show ?case by simp
next
  case (Cons s rest)
  show ?case
  proof (cases "usable (pd s)")
    case False
    then obtain e where "merge_profile m (pd s) s = Inl e"
      using merge_profile_unusable by blast
    with False show ?thesis by simp
  next
    case True
    from Cons.prems(3) obtain item where item: "(s, item) \<in> set m" by auto
    with Cons.prems(2) have rec: "record_of s item"
      by (auto simp: list_all_iff)
    let ?m1 = "map (\<lambda>(k, x). if k = s then (k, enriched (pd s) x) else (k, x)) m"
    have step: "merge_profile m (pd s) s = Inr ?m1"
      using Cons.prems(1) item rec True by (rule merge_profile_usable)
    have fst1: "map fst ?m1 = map fst m"
      by (induction m) auto
    have keys1: "map (key_value \<circ> fst) ?m1 = map (key_value \<circ> fst) m"
      by (induction m) auto
    have d1: "distinct (map (key_value \<circ> fst) ?m1)"
      by (subst keys1) (rule Cons.prems(1))
    have r1: "list_all (\<lambda>(k, x). record_of k x) ?m1"
      using Cons.prems(2) by (induction m) (auto intro: enriched_record split: if_splits)
    from fst1 have "set (map fst ?m1) = set (map fst m)" by simp
    then have "fst ` set ?m1 = fst ` set m" by (simp only: set_map)
    with Cons.prems(3) have s1: "set rest \<subseteq> fst ` set ?m1" by simp
    from Cons.prems(4) have dr: "distinct rest" and notin: "s \<notin> set rest" by simp_all
    note IH = Cons.IH [OF d1 r1 s1 dr]
    have compose:
      "map (\<lambda>(k, x). if k \<in> set rest then (k, enriched (pd k) x) else (k, x)) ?m1 =
       map (\<lambda>(k, x). if k \<in> set (s # rest) then (k, enriched (pd k) x) else (k, x)) m"
      using notin by (induction m) auto
    show ?thesis
      using IH True step compose by simp
  qed
qed

lemma permute_set: "set (permute picks xs) = set xs"
proof (induction picks arbitrary: xs)
  case Nil
  then show ?case by simp
next
  case (Cons p picks)
  show ?case
  proof (cases "xs = []")
    case True
    then show ?thesis by simp
  next
    case False
    let ?i = "p mod length xs"
    from False have i: "?i < length xs" by simp
    then have "xs = take ?i xs @ xs ! ?i # drop (Suc ?i) xs"
      by (rule id_take_nth_drop)
    then have "set xs = insert (xs ! ?i) (set (take ?i xs @ drop (Suc ?i) xs))"
      by (metis Un_insert_right set_append list.simps(15))
    with False Cons.IH [of "take ?i xs @ drop (Suc ?i) xs"] show ?thesis
      by (simp add: Let_def)
  qed
qed

lemma permute_distinct: "distinct xs \<Longrightarrow> distinct (permute picks xs)"
proof (induction picks arbitrary: xs)
  case Nil
  then show ?case by simp
next
  case (Cons p picks)
  show ?case
  proof (cases "xs = []")
    case True
    then show ?thesis by simp
  next
    case False
    let ?i = "p mod length xs"
    from False have i: "?i < length xs" by simp
    then have split: "xs = take ?i xs @ xs ! ?i # drop (Suc ?i) xs"
      by (rule id_take_nth_drop)
    with Cons.prems have "distinct (take ?i xs @ xs ! ?i # drop (Suc ?i) xs)" by simp
    then have d: "distinct (take ?i xs @ drop (Suc ?i) xs)"
      and n: "xs ! ?i \<notin> set (take ?i xs @ drop (Suc ?i) xs)"
      by auto
    from Cons.IH [OF d] n False show ?thesis
      by (simp add: Let_def permute_set)
  qed
qed

text \<open>Every order of distinct tasks is the result of some list of picks.\<close>

lemma permute_reaches:
  "distinct xs \<Longrightarrow> distinct ys \<Longrightarrow> set ys = set xs \<Longrightarrow> \<exists>picks. permute picks xs = ys"
proof (induction ys arbitrary: xs)
  case Nil
  then have "permute [] xs = []" by simp
  then show ?case by blast
next
  case (Cons y ys)
  from Cons.prems(3) have "y \<in> set xs" by auto
  then obtain i where i: "i < length xs" and y: "xs ! i = y"
    by (auto simp: in_set_conv_nth)
  let ?rest = "take i xs @ drop (Suc i) xs"
  from i have split: "xs = take i xs @ xs ! i # drop (Suc i) xs"
    by (rule id_take_nth_drop)
  with Cons.prems(1) have "distinct (take i xs @ xs ! i # drop (Suc i) xs)" by simp
  then have d: "distinct ?rest" and n: "xs ! i \<notin> set ?rest" by auto
  from split have "set xs = insert (xs ! i) (set ?rest)"
    by (metis Un_insert_right set_append list.simps(15))
  with y Cons.prems(3) have "insert y (set ys) = insert y (set ?rest)" by simp
  moreover from Cons.prems(2) have "y \<notin> set ys" by simp
  moreover from n y have "y \<notin> set ?rest" by simp
  ultimately have "set ys = set ?rest" by (metis insert_ident)
  with Cons.IH [OF d] Cons.prems(2) obtain picks where picks: "permute picks ?rest = ys"
    by auto
  from i have "xs \<noteq> []" and "i mod length xs = i" by auto
  with picks y have "permute (i # picks) xs = y # ys"
    by (simp add: Let_def)
  then show ?case by blast
qed

section \<open>The enriched collection\<close>

lemma get_profile_data_result:
  "snd (get_profile_data (net s) api_url k s) = Inr (fetched net api_url k s, s)"
  by (simp add: get_profile_data_def send_request_GET fetched_def Let_def)

lemma get_profile_data_requests:
  "fst (get_profile_data session api_url k s) =
     [\<lparr>verb = GET, url = api_url @ py_str s @ ''?apikey='' @ k, headers = [], body = JNull\<rparr>]"
  by (simp add: get_profile_data_def send_request_GET Let_def)

lemma update_with_profile_unkeyed:
  "data_map_of items [] = Inl e \<Longrightarrow> update_with_profile net sp cp items api_url k = ([], Inl e)"
  by (simp add: update_with_profile_def)

lemma update_with_profile_result:
  assumes "data_map_of items [] = Inr data_map"
  shows "(list_all (\<lambda>s. usable (fetched net api_url k s)) (map fst data_map) \<longrightarrow>
            snd (update_with_profile net sp cp items api_url k) =
              Inr (map (\<lambda>(s, x). enriched (fetched net api_url k s) x) data_map))
       \<and> (\<not> list_all (\<lambda>s. usable (fetched net api_url k s)) (map fst data_map) \<longrightarrow>
            (\<exists>e. snd (update_with_profile net sp cp items api_url k) = Inl e))"
proof -
  let ?tasks = "map fst data_map"
  let ?order = "permute cp ?tasks"
  let ?pd = "fetched net api_url k"
  have d: "distinct (map (key_value \<circ> fst) data_map)"
    using assms by (rule data_map_of_distinct)
  have r: "list_all (\<lambda>(k, x). record_of k x) data_map"
    using assms by (rule data_map_of_records)
  have set_order: "set ?order = fst ` set data_map"
    by (simp add: permute_set)
  then have sub: "set ?order \<subseteq> fst ` set data_map" by simp
  have dist: "distinct ?order"
    using d by (intro permute_distinct distinct_keys)
  have all: "list_all (\<lambda>s. usable (?pd s)) ?order \<longleftrightarrow> list_all (\<lambda>s. usable (?pd s)) ?tasks"
    by (simp add: list_all_iff permute_set)
  have task: "(\<lambda>symbol. snd (get_profile_data (net symbol) api_url k symbol))
                = (\<lambda>s. Inr (?pd s, s))"
    by (simp add: get_profile_data_result)
  have every: "map (\<lambda>(k, x). if k \<in> set ?order then (k, enriched (?pd k) x) else (k, x)) data_map
                 = map (\<lambda>(k, x). (k, enriched (?pd k) x)) data_map"
    by (rule map_cong [OF refl]) (use set_order in force)
  have out: "map snd (map (\<lambda>(k, x). (k, enriched (?pd k) x)) data_map)
               = map (\<lambda>(s, x). enriched (?pd s) x) data_map"
    by (induction data_map) auto
  have snd_eq: "snd (update_with_profile net sp cp items api_url k) =
          (case consume (\<lambda>s. Inr (?pd s, s)) ?order data_map of
             Inl e \<Rightarrow> Inl e
           | Inr data_map' \<Rightarrow> Inr (map snd data_map'))"
    using assms by (simp add: update_with_profile_def Let_def task)
  from consume_result [OF d r sub dist, of ?pd] all every out snd_eq show ?thesis
    by auto
qed

text \<open>
  Claim C4. Let the collection be built from the input records and let \<open>s\<close> be one of its
  keys. A collection returned by the profile enricher has as many records as the input
  collection, and one of them is a record for \<open>s\<close>: no record is dropped, whichever
  fetches succeeded or failed.
\<close>

theorem enricher_keeps_every_symbol:
  assumes "data_map_of items [] = Inr data_map"
    and "s \<in> fst ` set data_map"
    and "snd (update_with_profile net sp cp items api_url k) = Inr out"
  shows "length out = length data_map \<and> (\<exists>r. r \<in> set out \<and> record_of s r)"
proof -
  let ?pd = "fetched net api_url k"
  note result = update_with_profile_result [OF assms(1), of net api_url k sp cp]
  have "list_all (\<lambda>s. usable (?pd s)) (map fst data_map)"
  proof (rule ccontr)
    assume "\<not> list_all (\<lambda>s. usable (?pd s)) (map fst data_map)"
    with result obtain e where "snd (update_with_profile net sp cp items api_url k) = Inl e"
      by blast
    with assms(3) show False by simp
  qed
  with result assms(3) have out: "out = map (\<lambda>(s, x). enriched (?pd s) x) data_map"
    by simp
  from assms(2) obtain item where item: "(s, item) \<in> set data_map" by auto
  have "list_all (\<lambda>(k, x). record_of k x) data_map"
    using assms(1) by (rule data_map_of_records)
  with item have "record_of s item" by (auto simp: list_all_iff)
  then have rec: "record_of s (enriched (?pd s) item)" by (rule enriched_record)
  from item out have mem: "enriched (?pd s) item \<in> set out" by force
  from out have len: "length out = length data_map" by simp
  from len mem rec show ?thesis by blast
qed

theorem enricher_keeps_every_symbol_witness:
  "data_map_of [JObj [(''symbol'', JStr ''A'')], JObj [(''symbol'', JStr ''B'')]] []
     = Inr [(KStr ''A'', JObj [(''symbol'', JStr ''A'')]), (KStr ''B'', JObj [(''symbol'', JStr ''B'')])]
   \<and> length (projr (snd (update_with_profile (\<lambda>s r. Response 404 Malformed) [] [1]
                 [JObj [(''symbol'', JStr ''A'')], JObj [(''symbol'', JStr ''B'')]] ''u/'' ''k''))) = 2
   \<and> (\<exists>r. r \<in> set (projr (snd (update_with_profile (\<lambda>s r. Response 404 Malformed) [] [1]
                 [JObj [(''symbol'', JStr ''A'')], JObj [(''symbol'', JStr ''B'')]] ''u/'' ''k'')))
          \<and> record_of (KStr ''B'') r)"
  (is "data_map_of ?items [] = Inr ?dm \<and> length (projr (snd ?run)) = 2 \<and> _")
proof -
  have h1: "data_map_of ?items [] = Inr ?dm"
    by (simp add: py_eq_def)
  have h2: "KStr ''B'' \<in> fst ` set ?dm"
    by simp
  have h3: "snd ?run = Inr ?items"
    by code_simp
  from enricher_keeps_every_symbol [OF h1 h2 h3] h3
  have "length (projr (snd ?run)) = 2 \<and> (\<exists>r. r \<in> set (projr (snd ?run)) \<and> record_of (KStr ''B'') r)"
    by simp
  with h1 show ?thesis by (rule conjI)
qed

text \<open>
  Claim C5. For fixed records and fixed answers of the network to each symbol's fetch,
  the collection returned does not depend on the order in which the tasks are started
  nor on the order in which they complete: whatever one schedule returns, every other
  schedule returns too.
\<close>

theorem completion_order_is_irrelevant:
  "snd (update_with_profile net sp cp items api_url k) = Inr out
     \<longleftrightarrow> snd (update_with_profile net sp' cp' items api_url k) = Inr out"
proof (cases "data_map_of items []")
  case (Inl e)
  then show ?thesis by (simp add: update_with_profile_unkeyed)
next
  case (Inr data_map)
  note a = update_with_profile_result [OF Inr, of net api_url k sp cp]
  note b = update_with_profile_result [OF Inr, of net api_url k sp' cp']
  show ?thesis
  proof (cases "list_all (\<lambda>s. usable (fetched net api_url k s)) (map fst data_map)")
    case True
    with a b show ?thesis by simp
  next
    case False
    with a b show ?thesis by auto
  qed
qed

theorem completion_order_is_irrelevant_witness:
  "snd (update_with_profile
          (\<lambda>s r. if s = KStr ''A''
                  then Response 200 (Parsed (JArr [JObj [(''currency'', JStr ''USD''),
                         (''industry'', JStr ''Tools''), (''sector'', JStr ''Industrials''),
                         (''country'', JStr ''US''), (''image'', JStr ''a.png''),
                         (''description'', JStr ''Acme Corp makes widgets.'')]]))
                  else Response 404 Malformed)
          [1] [1] [JObj [(''symbol'', JStr ''A'')], JObj [(''symbol'', JStr ''B'')]] ''u/'' ''k'')
     = Inr [JObj [(''symbol'', JStr ''A''), (''currency'', JStr ''USD''),
                  (''industry'', JStr ''Tools''), (''sector'', JStr ''Industrials''),
                  (''country'', JStr ''US''), (''image'', JStr ''a.png''),
                  (''description'', JStr ''Acme Corp makes widgets.'')],
            JObj [(''symbol'', JStr ''B'')]]"
  (is "snd (update_with_profile ?net [1] [1] ?items ''u/'' ''k'') = Inr ?out")
proof -
  have "snd (update_with_profile ?net [] [] ?items ''u/'' ''k'') = Inr ?out"
    by code_simp
  with completion_order_is_irrelevant [of ?net "[]" "[]" ?items "''u/''" "''k''" ?out "[1]" "[1]"]
  show ?thesis by simp
qed

section \<open>An unsupported rewrite backend\<close>

lemma rewrite_item_invalid:
  assumes "py_lower (rewrite_api cfg) \<noteq> ''openai''" and "py_lower (rewrite_api cfg) \<noteq> ''coze''"
  shows "\<exists>e. rewrite_item cfg session item = ([], Inl e)"
  using assms by (auto simp: rewrite_item_def split: sum.splits)

lemma rewrite_item_invalid_described:
  assumes "py_lower (rewrite_api cfg) \<noteq> ''openai''" and "py_lower (rewrite_api cfg) \<noteq> ''coze''"
    and "py_getitem item ''description'' = Inr (JStr d)"
  shows "rewrite_item cfg session item = ([], Inl InvalidBackend)"
  using assms by (simp add: rewrite_item_def)

lemma rewrite_all_invalid:
  assumes "py_lower (rewrite_api cfg) \<noteq> ''openai''" and "py_lower (rewrite_api cfg) \<noteq> ''coze''"
  shows "\<exists>e. rewrite_all cfg net i (item # rest) = ([], Inl e)"
proof -
  from rewrite_item_invalid [OF assms] obtain e where "rewrite_item cfg (net i) item = ([], Inl e)"
    by blast
  then show ?thesis by simp
qed

lemma rewrite_all_invalid_described:
  assumes "py_lower (rewrite_api cfg) \<noteq> ''openai''" and "py_lower (rewrite_api cfg) \<noteq> ''coze''"
    and "py_getitem item ''description'' = Inr (JStr d)"
  shows "rewrite_all cfg net i (item # rest) = ([], Inl InvalidBackend)"
  using rewrite_item_invalid_described [OF assms] by simp

lemma update_with_profile_requests:
  "list_all (\<lambda>r. verb r = GET) (fst (update_with_profile net sp cp items api_url k))"
  by (cases "data_map_of items []")
     (simp_all add: update_with_profile_def Let_def list_all_iff get_profile_data_requests)

lemma main_invalid:
  assumes "py_lower (rewrite_api cfg) \<noteq> ''openai''" and "py_lower (rewrite_api cfg) \<noteq> ''coze''"
  shows "list_all (\<lambda>r. verb r = GET) (http (main cfg env))
       \<and> output_csv (main cfg env) = None \<and> raised (main cfg env) \<noteq> None"
proof (cases "bulk_list env")
  case None
  then show ?thesis by (simp add: main_def get_available_traded_def)
next
  case (Some listing)
  note bulk = Some
  show ?thesis
  proof (cases "list_test env")
    case None
    with bulk show ?thesis by (simp add: main_def get_available_traded_def)
  next
    case (Some data)
    note input = Some
    show ?thesis
    proof (cases "py_iter data")
      case (Inl e)
      with bulk input show ?thesis by (simp add: main_def get_available_traded_def)
    next
      case (Inr items)
      note iter = Inr
      show ?thesis
      proof (cases "filtered_data items")
        case (Inl e)
        with bulk input iter show ?thesis by (simp add: main_def get_available_traded_def)
      next
        case (Inr filtered)
        note filt = Inr
        obtain reqs1 r1 where uwp: "update_with_profile (profile_net env) (started env)
            (completed env) filtered ''https://fmpcloud.io/api/v3/profile/'' (api_key cfg) = (reqs1, r1)"
          by (cases "update_with_profile (profile_net env) (started env)
            (completed env) filtered ''https://fmpcloud.io/api/v3/profile/'' (api_key cfg)")
        from update_with_profile_requests [of "profile_net env" "started env" "completed env"
            filtered "''https://fmpcloud.io/api/v3/profile/''" "api_key cfg"] uwp
        have gets: "list_all (\<lambda>r. verb r = GET) reqs1" by simp
        show ?thesis
        proof (cases r1)
          case (Inl e)
          with bulk input iter filt uwp gets show ?thesis
            by (simp add: main_def get_available_traded_def)
        next
          case (Inr enriched_items)
          note enr = Inr
          show ?thesis
          proof (cases enriched_items)
            case Nil
            with bulk input iter filt uwp gets enr show ?thesis
              by (simp add: main_def get_available_traded_def)
          next
            case (Cons item rest)
            from rewrite_all_invalid [OF assms, of "rewrite_net env" 0 item rest]
            obtain e where "rewrite_all cfg (rewrite_net env) 0 (item # rest) = ([], Inl e)"
              by blast
            with bulk input iter filt uwp gets enr Cons show ?thesis
              by (simp add: main_def get_available_traded_def)
          qed
        qed
      qed
    qed
  qed
qed

lemma main_invalid_described:
  assumes "py_lower (rewrite_api cfg) \<noteq> ''openai''" and "py_lower (rewrite_api cfg) \<noteq> ''coze''"
    and "bulk_list env = Some listing"
    and "list_test env = Some data"
    and "py_iter data = Inr items"
    and "filtered_data items = Inr filtered"
    and "update_with_profile (profile_net env) (started env) (completed env) filtered
           ''https://fmpcloud.io/api/v3/profile/'' (api_key cfg) = (reqs, Inr (item # rest))"
    and "py_getitem item ''description'' = Inr (JStr d)"
  shows "main cfg env =
           \<lparr>http = \<lparr>verb = GET,
                     url = ''https://fmpcloud.io/api/v3/available-traded/list?apikey='' @ api_key cfg,
                     headers = [], body = JNull\<rparr> # reqs,
            list_json = Some listing, output_csv = None, raised = Some InvalidBackend\<rparr>"
  using assms(3-7) rewrite_all_invalid_described [OF assms(1,2,8), of "rewrite_net env" 0 rest]
  by (simp add: main_def get_available_traded_def)

lemma py_lower_azure: "py_lower ''azure'' = ''azure''"
  by (simp add: py_lower_def py_lower_char_def lower_letters_def upper_letters_def)

text \<open>
  Claim C2, as the code has it. When the configured backend, in lower case, is neither
  \<^verbatim>\<open>openai\<close> nor \<^verbatim>\<open>coze\<close>, the run issues no rewrite request (every request of the
  run is a GET, and the rewriters post), writes no output and always ends with an
  exception. The backend is checked inside the rewriting loop: when the run reaches the
  loop with a first record whose \<^verbatim>\<open>description\<close> is a string, it ends there with
  \<open>InvalidBackend\<close>, after the bulk-list request and the profile requests have been
  issued.
\<close>

theorem invalid_backend_aborts_before_rewriting:
  assumes "py_lower (rewrite_api cfg) \<noteq> ''openai''" and "py_lower (rewrite_api cfg) \<noteq> ''coze''"
  shows "list_all (\<lambda>r. verb r = GET) (http (main cfg env))
       \<and> output_csv (main cfg env) = None
       \<and> raised (main cfg env) \<noteq> None
       \<and> (\<forall>listing data items filtered reqs item rest d.
             bulk_list env = Some listing
             \<and> list_test env = Some data
             \<and> py_iter data = Inr items
             \<and> filtered_data items = Inr filtered
             \<and> update_with_profile (profile_net env) (started env) (completed env) filtered
                  ''https://fmpcloud.io/api/v3/profile/'' (api_key cfg) = (reqs, Inr (item # rest))
             \<and> py_getitem item ''description'' = Inr (JStr d)
             \<longrightarrow> main cfg env =
                   \<lparr>http = \<lparr>verb = GET,
                             url = ''https://fmpcloud.io/api/v3/available-traded/list?apikey=''
                                     @ api_key cfg,
                             headers = [], body = JNull\<rparr> # reqs,
                    list_json = Some listing, output_csv = None,
                    raised = Some InvalidBackend\<rparr>)"
  using main_invalid [OF assms, of env] main_invalid_described [OF assms, of env]
  by blast

theorem invalid_backend_aborts_before_rewriting_witness:
  "py_lower (rewrite_api cfg_azure) \<noteq> ''openai''
   \<and> py_lower (rewrite_api cfg_azure) \<noteq> ''coze''
   \<and> main cfg_azure env_one_candidate =
       \<lparr>http = [\<lparr>verb = GET,
                  url = ''https://fmpcloud.io/api/v3/available-traded/list?apikey=k'',
                  headers = [], body = JNull\<rparr>,
                \<lparr>verb = GET, url = ''https://fmpcloud.io/api/v3/profile/A?apikey=k'',
                  headers = [], body = JNull\<rparr>],
        list_json = Some (JArr []), output_csv = None, raised = Some InvalidBackend\<rparr>"
proof -
  have h1: "py_lower (rewrite_api cfg_azure) \<noteq> ''openai''"
    by (simp add: cfg_azure_def py_lower_azure)
  have h2: "py_lower (rewrite_api cfg_azure) \<noteq> ''coze''"
    by (simp add: cfg_azure_def py_lower_azure)
  let ?enriched = "JObj [(''symbol'', JStr ''A''), (''type'', JStr ''stock''),
                         (''exchangeShortName'', JStr ''NASDAQ''),
                         (''currency'', JStr ''USD''), (''industry'', JStr ''Tools''),
                         (''sector'', JStr ''Industrials''), (''country'', JStr ''US''),
                         (''image'', JStr ''a.png''),
                         (''description'', JStr ''Acme Corp makes widgets.'')]"
  have stages: "bulk_list env_one_candidate = Some (JArr [])
      \<and> list_test env_one_candidate = Some (JArr [item_A])
      \<and> py_iter (JArr [item_A]) = Inr [item_A]
      \<and> filtered_data [item_A] = Inr [item_A]
      \<and> update_with_profile (profile_net env_one_candidate) (started env_one_candidate)
           (completed env_one_candidate) [item_A]
           ''https://fmpcloud.io/api/v3/profile/'' (api_key cfg_azure)
         = ([\<lparr>verb = GET, url = ''https://fmpcloud.io/api/v3/profile/A?apikey=k'',
               headers = [], body = JNull\<rparr>], Inr [?enriched])
      \<and> py_getitem ?enriched ''description'' = Inr (JStr ''Acme Corp makes widgets.'')"
    by code_simp
  have k: "api_key cfg_azure = ''k''"
    by (simp add: cfg_azure_def)
  from invalid_backend_aborts_before_rewriting [OF h1 h2, of env_one_candidate] stages
  have "main cfg_azure env_one_candidate =
       \<lparr>http = [\<lparr>verb = GET,
                  url = ''https://fmpcloud.io/api/v3/available-traded/list?apikey='' @ api_key cfg_azure,
                  headers = [], body = JNull\<rparr>,
                \<lparr>verb = GET, url = ''https://fmpcloud.io/api/v3/profile/A?apikey=k'',
                  headers = [], body = JNull\<rparr>],
        list_json = Some (JArr []), output_csv = None, raised = Some InvalidBackend\<rparr>"
    by blast
  with h1 h2 k show ?thesis by simp
qed

text \<open>
  Claim C2 as stated fails: with the backend \<^verbatim>\<open>azure\<close> and one candidate whose profile is
  fetched, the run ends with \<open>InvalidBackend\<close> after two HTTP requests have been issued.
\<close>

theorem invalid_backend_after_http_calls:
  "py_lower (rewrite_api cfg_azure) \<noteq> ''openai''
   \<and> py_lower (rewrite_api cfg_azure) \<noteq> ''coze''
   \<and> raised (main cfg_azure env_one_candidate) = Some InvalidBackend
   \<and> http (main cfg_azure env_one_candidate) =
       [\<lparr>verb = GET, url = ''https://fmpcloud.io/api/v3/available-traded/list?apikey=k'',
          headers = [], body = JNull\<rparr>,
        \<lparr>verb = GET, url = ''https://fmpcloud.io/api/v3/profile/A?apikey=k'',
          headers = [], body = JNull\<rparr>]"
  by code_simp

section \<open>Records whose enrichment failed\<close>

text \<open>
  Claim C1 on the code. Three candidates A, B and C; the profile fetches of A and C
  succeed, that of B is answered with status 404; every rewrite call succeeds. The run
  ends with \<^verbatim>\<open>KeyError\<close>, raised by \<^verbatim>\<open>item['description']\<close> for B, and \<^verbatim>\<open>output.csv\<close> is never
  opened.
\<close>

theorem failed_fetch_aborts_the_run:
  "raised (main cfg_openai env_fetch_of_B_fails) = Some KeyError
   \<and> output_csv (main cfg_openai env_fetch_of_B_fails) = None"
  by code_simp

text \<open>
  A failed rewrite can end the run too: the columns are those of the first record, so
  when the rewrite of the first record fails and that of the second succeeds, writing
  the second row raises and the file keeps the header and one row.
\<close>

lemma failed_rewrite_loses_rows:
  "raised (main cfg_openai env_first_rewrite_fails) = Some ExtraFields
   \<and> map length (the (output_csv (main cfg_openai env_first_rewrite_fails))) = [9, 9]"
  by code_simp

text \<open>
  The part of claim C3 that the code keeps: a failed fetch, which \<^verbatim>\<open>send_request\<close> reports
  as \<^verbatim>\<open>None\<close>, leaves the whole collection as it was.
\<close>

lemma failed_fetch_keeps_collection: "merge_profile data_map JNull symbol = Inr data_map"
  by (simp add: merge_profile_def)

text \<open>
  Claim C3 on the code. A profile fetch answered with status 200 and an empty array
  makes \<^verbatim>\<open>update_with_profile\<close> raise \<^verbatim>\<open>IndexError\<close>, and one whose first element lacks a
  field makes it raise \<^verbatim>\<open>KeyError\<close>: no collection is returned, and \<^verbatim>\<open>main\<close> ends with
  the exception without opening \<^verbatim>\<open>output.csv\<close>.
\<close>

theorem empty_profile_aborts_the_run:
  "snd (update_with_profile (\<lambda>s r. Response 200 (Parsed (JArr []))) [] []
          [item_A] ''u/'' ''k'') = Inl IndexError
   \<and> snd (update_with_profile
            (\<lambda>s r. Response 200 (Parsed (JArr [JObj [(''currency'', JStr ''USD'')]]))) [] []
            [item_A] ''u/'' ''k'') = Inl KeyError
   \<and> raised (main cfg_openai env_empty_profile) = Some IndexError
   \<and> output_csv (main cfg_openai env_empty_profile) = None"
  by code_simp

end
